theory Spec2Isabelle
  imports Complex_Main "HOL-Library.AList" "HOL-Library.Log_Nat"
begin

section \<open>Data model of the tracker page\<close>

text \<open>
  The page keeps one week object in React state. Its shape is the one
  \<^verbatim>\<open>newWeekState\<close> builds. The numbers held in the week are finite and are
  given by their exact rational value; what the page computes from them is
  computed in IEEE double arithmetic (section on numbers below). Strings are
  \<^typ>\<open>string\<close>, with a character for each code point up to U+00FF; arrays are
  lists, and the \<^verbatim>\<open>ticks\<close> object is an association list in insertion order
  (lookup is \<^const>\<open>map_of\<close>).
\<close>

datatype HabitKind = Inner | Outer

record Habit =
  habit_id :: string
  habit_name :: string
  enabled :: bool
  kind :: HabitKind

record ChecklistItem =
  item_id :: string
  item_text :: string
  item_done :: bool

datatype Section =
  ChecklistSection string string "ChecklistItem list"
| NotesSection string string string
| NumberSection string string rat

record Meta =
  weekStart :: string
  createdAt :: string
  theme :: string
  logoDataUrl :: string

record Metrics =
  realMetricLabel :: string
  realMetricValue :: string
  screenTimeTarget :: string
  dailyInnerMinutes :: "rat list"
  innerShareEstimate :: rat

record OneTime =
  whysTopic :: string
  rootCause :: string
  vanityFrom :: string
  realTo :: string
  seam :: string
  bridgeAction :: string
  bridgeWhen :: string

record Reflection =
  helped :: string
  overPolish :: string
  stop :: string
  cont :: string
  start :: string
  nextInnerShare :: rat
  commitment :: string

record WeekState =
  meta :: Meta
  metrics :: Metrics
  habits :: "Habit list"
  ticks :: "(string \<times> bool list) list"
  sections :: "Section list"
  oneTime :: OneTime
  wins :: "string list"
  reflection :: Reflection

text \<open>Errors a JavaScript expression of the page can throw.\<close>

datatype js_error = TypeError | SyntaxError

subsection \<open>Defaults\<close>

definition mkHabit :: "string \<Rightarrow> string \<Rightarrow> bool \<Rightarrow> HabitKind \<Rightarrow> Habit" where
  "mkHabit i n e k = \<lparr>habit_id = i, habit_name = n, enabled = e, kind = k\<rparr>"

text \<open>
  \<^verbatim>\<open>DEFAULT_HABITS\<close>. The display names are kept in ASCII (the source uses a
  few typographic characters in them); no function below inspects a display name.
\<close>

definition DEFAULT_HABITS :: "Habit list" where
  "DEFAULT_HABITS =
    [ mkHabit ''upstream'' ''2-min upstream block (start of day)'' True Inner,
      mkHabit ''sleep'' ''Sleep >= 7h'' True Inner,
      mkHabit ''move'' ''Move 20+ min'' True Inner,
      mkHabit ''noscroll'' ''No-scroll bedtime'' True Inner,
      mkHabit ''learn'' ''Learn (10 pages / 20 min)'' True Inner,
      mkHabit ''fuel'' ''Fuel/Water (prep or >=2L)'' True Inner,
      mkHabit ''connect'' ''Connect (msg/call someone who matters)'' True Inner,
      mkHabit ''screentime'' ''Screen time <= target (hrs)'' True Inner,
      mkHabit ''publish'' ''Post something public'' False Outer ]"

text \<open>
  \<^verbatim>\<open>newWeekState(weekStartISO)\<close>; the clock reading
  \<^verbatim>\<open>new Date().toISOString()\<close> is the parameter \<open>now\<close>.
\<close>

definition newWeekState :: "string \<Rightarrow> string \<Rightarrow> WeekState" where
  "newWeekState now weekStartISO =
    \<lparr> meta = \<lparr>weekStart = weekStartISO, createdAt = now, theme = '''', logoDataUrl = ''''\<rparr>,
      metrics = \<lparr>realMetricLabel = ''Sleep hours'', realMetricValue = '''',
                 screenTimeTarget = ''2.5'', dailyInnerMinutes = replicate 7 2,
                 innerShareEstimate = 60\<rparr>,
      habits = DEFAULT_HABITS,
      ticks = map (\<lambda>h. (habit_id h, replicate 7 False)) DEFAULT_HABITS,
      sections = [],
      oneTime = \<lparr>whysTopic = '''', rootCause = '''', vanityFrom = '''', realTo = '''',
                 seam = '''', bridgeAction = '''', bridgeWhen = ''''\<rparr>,
      wins = ['''', '''', '''', '''', ''''],
      reflection = \<lparr>helped = '''', overPolish = '''', stop = '''', cont = '''', start = '''',
                    nextInnerShare = 60, commitment = ''''\<rparr> \<rparr>"

section \<open>JavaScript numbers\<close>

text \<open>
  A JavaScript number is an IEEE 754 double: a finite value, given here by the
  rational it denotes, one of the two infinities, or NaN. Negative zero is not
  told apart from zero; the page never divides by a zero and shows both alike.
\<close>

datatype jsnum = Num rat | PosInfinity | NegInfinity | NaN

text \<open>
  The exponent \<open>e\<close> with \<open>2^e \<le> |x| < 2^(e+1)\<close> of a non-zero rational, from
  the bit lengths of its numerator and denominator.
\<close>

definition binade :: "rat \<Rightarrow> int" where
  "binade x =
    (let (p, q) = quotient_of \<bar>x\<bar>;
         d = bitlen p - bitlen q
     in if 2 powi d \<le> \<bar>x\<bar> then d else d - 1)"

text \<open>Rounding to the nearest integer, ties to the even one.\<close>

definition rne :: "rat \<Rightarrow> int" where
  "rne y =
    (let f = \<lfloor>y\<rfloor>; r = y - of_int f
     in if r < 1 / 2 then f
        else if 1 / 2 < r then f + 1
        else if even f then f else f + 1)"

text \<open>
  The double nearest to a rational (round to nearest, ties to even): 53
  significant bits, exponents from -1022 (below that the spacing stays
  \<open>2^-1074\<close>), and overflow to an infinity when the rounded value reaches
  \<open>2^1024\<close>. Every arithmetic operator of JavaScript returns this rounding of
  the exact result.
\<close>

definition fl :: "rat \<Rightarrow> jsnum" where
  "fl x =
    (if x = 0 then Num 0
     else
       (let e = max (binade x) (- 1022);
            u = 2 powi (e - 52);
            y = of_int (rne (x / u)) * u
        in if 2 powi 1024 \<le> \<bar>y\<bar>
           then (if 0 < x then PosInfinity else NegInfinity)
           else Num y))"

definition signedInfinity :: "bool \<Rightarrow> jsnum" where
  "signedInfinity positive = (if positive then PosInfinity else NegInfinity)"

text \<open>The operators \<^verbatim>\<open>+\<close>, \<^verbatim>\<open>*\<close> and \<^verbatim>\<open>/\<close> on numbers.\<close>

fun js_add :: "jsnum \<Rightarrow> jsnum \<Rightarrow> jsnum" where
  "js_add (Num a) (Num b) = fl (a + b)"
| "js_add NaN y = NaN"
| "js_add x NaN = NaN"
| "js_add PosInfinity NegInfinity = NaN"
| "js_add NegInfinity PosInfinity = NaN"
| "js_add PosInfinity y = PosInfinity"
| "js_add x PosInfinity = PosInfinity"
| "js_add NegInfinity y = NegInfinity"
| "js_add x NegInfinity = NegInfinity"

fun js_mul :: "jsnum \<Rightarrow> jsnum \<Rightarrow> jsnum" where
  "js_mul (Num a) (Num b) = fl (a * b)"
| "js_mul NaN y = NaN"
| "js_mul x NaN = NaN"
| "js_mul (Num a) PosInfinity = (if a = 0 then NaN else signedInfinity (0 < a))"
| "js_mul (Num a) NegInfinity = (if a = 0 then NaN else signedInfinity (a < 0))"
| "js_mul PosInfinity (Num b) = (if b = 0 then NaN else signedInfinity (0 < b))"
| "js_mul NegInfinity (Num b) = (if b = 0 then NaN else signedInfinity (b < 0))"
| "js_mul PosInfinity PosInfinity = PosInfinity"
| "js_mul NegInfinity NegInfinity = PosInfinity"
| "js_mul PosInfinity NegInfinity = NegInfinity"
| "js_mul NegInfinity PosInfinity = NegInfinity"

fun js_div :: "jsnum \<Rightarrow> jsnum \<Rightarrow> jsnum" where
  "js_div (Num a) (Num b) =
    (if b = 0 then (if a = 0 then NaN else signedInfinity (0 < a)) else fl (a / b))"
| "js_div NaN y = NaN"
| "js_div x NaN = NaN"
| "js_div (Num a) PosInfinity = Num 0"
| "js_div (Num a) NegInfinity = Num 0"
| "js_div PosInfinity (Num b) = signedInfinity (0 \<le> b)"
| "js_div NegInfinity (Num b) = signedInfinity (b < 0)"
| "js_div PosInfinity y = NaN"
| "js_div NegInfinity y = NaN"

text \<open>
  \<^verbatim>\<open>Math.round\<close>: the nearest integer, ties towards plus infinity; infinities
  and NaN are returned as they are. \<^verbatim>\<open>Math.min\<close> of two numbers.
\<close>

fun Math_round :: "jsnum \<Rightarrow> jsnum" where
  "Math_round (Num x) = Num (of_int \<lfloor>x + 1 / 2\<rfloor>)"
| "Math_round x = x"

fun Math_min :: "jsnum \<Rightarrow> jsnum \<Rightarrow> jsnum" where
  "Math_min (Num a) (Num b) = Num (min a b)"
| "Math_min NaN y = NaN"
| "Math_min x NaN = NaN"
| "Math_min NegInfinity y = NegInfinity"
| "Math_min x NegInfinity = NegInfinity"
| "Math_min PosInfinity y = y"
| "Math_min x PosInfinity = x"


section \<open>Derived metrics\<close>

definition enabledHabits :: "WeekState \<Rightarrow> Habit list" where
  "enabledHabits week = filter enabled (habits week)"









text \<open>
  \<^verbatim>\<open>Number(b || 0)\<close> on a number \<open>b\<close> of the week: zero stays zero, any other
  number is itself.
\<close>

definition numberOrZero :: "rat \<Rightarrow> rat" where
  "numberOrZero b = (if b = 0 then 0 else b)"

definition totalInnerMinutes :: "WeekState \<Rightarrow> jsnum" where
  "totalInnerMinutes week =
    foldl (\<lambda>a b. js_add a (Num (numberOrZero b))) (Num 0) (dailyInnerMinutes (metrics week))"

definition targetInnerMinutes :: jsnum where
  "targetInnerMinutes = js_mul (Num 2) (Num 7)"

definition innerProgress :: "WeekState \<Rightarrow> jsnum" where
  "innerProgress week =
    Math_min (Num 100)
      (Math_round (js_mul (js_div (totalInnerMinutes week) targetInnerMinutes) (Num 100)))"

subsection \<open>The data-model invariant and the specification-side counts\<close>

text \<open>
  Every enabled habit has an array of seven booleans in \<^verbatim>\<open>ticks\<close>.
\<close>

definition weekInvariant :: "WeekState \<Rightarrow> bool" where
  "weekInvariant week =
    list_all (\<lambda>h. case map_of (ticks week) (habit_id h) of
                     None \<Rightarrow> False
                   | Some arr \<Rightarrow> length arr = 7)
             (enabledHabits week)"




text \<open>A number lies exactly halfway between two consecutive integers.\<close>

definition isHalfway :: "rat \<Rightarrow> bool" where
  "isHalfway x = (x = of_int \<lfloor>x\<rfloor> + 1 / 2)"

section \<open>Editing operations\<close>

text \<open>
  Each operation is the updater it passes to \<^verbatim>\<open>setWeek\<close>, as a function of
  the previous week. Answers of \<^verbatim>\<open>prompt\<close> and \<^verbatim>\<open>confirm\<close> and the text of
  \<^verbatim>\<open>Math.random()+""\<close> are parameters.
\<close>

text \<open>
  \<^verbatim>\<open>\s\<close> among the code points up to U+00FF: tab, LF, VT, FF, CR, space and
  the no-break space U+00A0.
\<close>

definition isWhitespace :: "char \<Rightarrow> bool" where
  "isWhitespace c = (of_char c \<in> {9, 10, 11, 12, 13, 32, 160 :: nat})"

text \<open>
  \<^verbatim>\<open>toLowerCase\<close> among the code points up to U+00FF: A to Z, and the
  capital letters U+00C0 to U+00DE except the multiplication sign U+00D7,
  move up by 32.
\<close>

definition toLowerCase :: "string \<Rightarrow> string" where
  "toLowerCase s =
    map (\<lambda>c. if (65 \<le> (of_char c :: nat) \<and> (of_char c :: nat) \<le> 90)
                 \<or> (192 \<le> (of_char c :: nat) \<and> (of_char c :: nat) \<le> 222
                     \<and> (of_char c :: nat) \<noteq> 215)
              then char_of (of_char c + 32 :: nat) else c) s"

text \<open>\<^verbatim>\<open>.replace(/\s+/g, "-")\<close>: every maximal run of whitespace becomes one dash.\<close>

function replaceWhitespace :: "string \<Rightarrow> string" where
  "replaceWhitespace [] = []"
| "replaceWhitespace (c # cs) =
    (if isWhitespace c then CHR ''-'' # replaceWhitespace (dropWhile isWhitespace cs)
     else c # replaceWhitespace cs)"
  by pat_completeness auto
termination
  by (relation "measure length") (auto simp: le_imp_less_Suc length_dropWhile_le)

text \<open>\<^verbatim>\<open>.replace(/[^a-z0-9-]/g, "")\<close>.\<close>

definition isIdChar :: "char \<Rightarrow> bool" where
  "isIdChar c =
    ((97 \<le> (of_char c :: nat) \<and> (of_char c :: nat) \<le> 122)
     \<or> (48 \<le> (of_char c :: nat) \<and> (of_char c :: nat) \<le> 57)
     \<or> c = CHR ''-'')"

definition habitIdOf :: "string \<Rightarrow> string \<Rightarrow> string" where
  "habitIdOf name rnd =
    take 24 (filter isIdChar (replaceWhitespace (toLowerCase name)))
      @ ''-'' @ take 4 (drop 2 rnd)"

definition addHabit :: "string option \<Rightarrow> string \<Rightarrow> WeekState \<Rightarrow> WeekState" where
  "addHabit answer rnd prev =
    (case answer of
       None \<Rightarrow> prev
     | Some name \<Rightarrow>
         if name = [] then prev
         else
           (let i = habitIdOf name rnd;
                h = \<lparr>habit_id = i, habit_name = name, enabled = True, kind = Inner\<rparr>
            in prev\<lparr>habits := habits prev @ [h],
                    ticks := AList.update i (replicate 7 False) (ticks prev)\<rparr>))"

definition removeHabit :: "bool \<Rightarrow> string \<Rightarrow> WeekState \<Rightarrow> WeekState" where
  "removeHabit confirmed i prev =
    (if \<not> confirmed then prev
     else prev\<lparr>habits := filter (\<lambda>h. habit_id h \<noteq> i) (habits prev),
               ticks := AList.delete i (ticks prev)\<rparr>)"

text \<open>\<^verbatim>\<open>arr.map((b, i) => (i === dayIndex ? val : b))\<close>.\<close>

definition mapTick :: "nat \<Rightarrow> bool \<Rightarrow> bool list \<Rightarrow> bool list" where
  "mapTick dayIndex val arr =
    map (\<lambda>(b, i). if i = dayIndex then val else b) (zip arr [0..<length arr])"

definition setTick :: "string \<Rightarrow> nat \<Rightarrow> bool \<Rightarrow> WeekState \<Rightarrow> js_error + WeekState" where
  "setTick habitId dayIndex val prev =
    (case map_of (ticks prev) habitId of
       None \<Rightarrow> Inl TypeError
     | Some arr \<Rightarrow>
         Inr (prev\<lparr>ticks := AList.update habitId (mapTick dayIndex val arr) (ticks prev)\<rparr>))"

definition setHabitName :: "string \<Rightarrow> string \<Rightarrow> WeekState \<Rightarrow> WeekState" where
  "setHabitName i name prev =
    prev\<lparr>habits := map (\<lambda>h. if habit_id h = i then h\<lparr>habit_name := name\<rparr> else h) (habits prev)\<rparr>"

definition setHabitEnabled :: "string \<Rightarrow> bool \<Rightarrow> WeekState \<Rightarrow> WeekState" where
  "setHabitEnabled i en prev =
    prev\<lparr>habits := map (\<lambda>h. if habit_id h = i then h\<lparr>enabled := en\<rparr> else h) (habits prev)\<rparr>"

definition setHabitKind :: "string \<Rightarrow> HabitKind \<Rightarrow> WeekState \<Rightarrow> WeekState" where
  "setHabitKind i k prev =
    prev\<lparr>habits := map (\<lambda>h. if habit_id h = i then h\<lparr>kind := k\<rparr> else h) (habits prev)\<rparr>"

text \<open>
  \<^verbatim>\<open>resetWeek(confirmText)\<close>: \<open>answer\<close> is what \<^verbatim>\<open>confirm\<close> returns when it is
  asked.
\<close>

definition resetWeek :: "string \<Rightarrow> string \<Rightarrow> bool \<Rightarrow> bool \<Rightarrow> WeekState \<Rightarrow> WeekState" where
  "resetWeek now weekStartISO confirmText answer prev =
    (if \<not> confirmText \<or> answer then newWeekState now weekStartISO else prev)"

text \<open>
  States reachable from a fresh week by the editing operations. The last rule
  covers every other handler of the page (theme, metrics, sections, one-time
  fields, wins, reflection, logo): each rebuilds the week with \<^verbatim>\<open>habits\<close> and
  \<^verbatim>\<open>ticks\<close> copied.
\<close>

inductive editReachable :: "WeekState \<Rightarrow> bool" where
  fresh: "editReachable (newWeekState now weekStartISO)"
| add: "editReachable w \<Longrightarrow> editReachable (addHabit answer rnd w)"
| remove: "editReachable w \<Longrightarrow> editReachable (removeHabit confirmed i w)"
| tick: "editReachable w \<Longrightarrow> setTick i d v w = Inr w' \<Longrightarrow> editReachable w'"
| rename: "editReachable w \<Longrightarrow> editReachable (setHabitName i n w)"
| enable: "editReachable w \<Longrightarrow> editReachable (setHabitEnabled i en w)"
| rekind: "editReachable w \<Longrightarrow> editReachable (setHabitKind i k w)"
| reset: "editReachable w \<Longrightarrow> editReachable (resetWeek now weekStartISO confirmText answer w)"
| other: "editReachable w \<Longrightarrow> habits w' = habits w \<Longrightarrow> ticks w' = ticks w \<Longrightarrow>
          editReachable w'"

section \<open>JSON values, documents and storage\<close>

text \<open>
  What \<^verbatim>\<open>JSON.parse\<close> returns: a JavaScript value built from null, booleans,
  numbers, strings, arrays and objects (properties in insertion order).
\<close>

datatype json =
  JNull
| JBool bool
| JNum rat
| JStr string
| JArr "json list"
| JObj "(string \<times> json) list"

text \<open>
  A text handed to \<^verbatim>\<open>JSON.parse\<close> is the empty string, a text that is not
  JSON, or the JSON text of a value. \<^verbatim>\<open>JSON.stringify\<close> and \<^verbatim>\<open>JSON.parse\<close>
  belong to the platform; the model keeps of a text only what \<^verbatim>\<open>JSON.parse\<close>
  makes of it.
\<close>

datatype document = EmptyText | Malformed | Wellformed json

definition JSON_parse :: "document \<Rightarrow> js_error + json" where
  "JSON_parse d = (case d of Wellformed v \<Rightarrow> Inr v | _ \<Rightarrow> Inl SyntaxError)"

definition JSON_stringify :: "json \<Rightarrow> document" where
  "JSON_stringify v = Wellformed v"

text \<open>Truthiness of a value, and of an optional (\<^verbatim>\<open>undefined\<close> is \<open>None\<close>) one.\<close>

fun truthy :: "json \<Rightarrow> bool" where
  "truthy JNull = False"
| "truthy (JBool b) = b"
| "truthy (JNum n) = (n \<noteq> 0)"
| "truthy (JStr s) = (s \<noteq> [])"
| "truthy (JArr xs) = True"
| "truthy (JObj kvs) = True"

definition truthyOpt :: "json option \<Rightarrow> bool" where
  "truthyOpt v = (case v of None \<Rightarrow> False | Some x \<Rightarrow> truthy x)"

text \<open>
  \<^verbatim>\<open>data?.k\<close> for a property name \<open>k\<close> that no built-in prototype defines
  (\<^verbatim>\<open>meta\<close>, \<^verbatim>\<open>habits\<close>, \<^verbatim>\<open>ticks\<close>): only an object can have it.
\<close>

definition getProp :: "json \<Rightarrow> string \<Rightarrow> json option" where
  "getProp data k = (case data of JObj kvs \<Rightarrow> map_of kvs k | _ \<Rightarrow> None)"

subsection \<open>The week object as a JavaScript value\<close>

definition jsonOfKind :: "HabitKind \<Rightarrow> json" where
  "jsonOfKind k = JStr (case k of Inner \<Rightarrow> ''inner'' | Outer \<Rightarrow> ''outer'')"

definition jsonOfHabit :: "Habit \<Rightarrow> json" where
  "jsonOfHabit h =
    JObj [(''id'', JStr (habit_id h)), (''name'', JStr (habit_name h)),
          (''enabled'', JBool (enabled h)), (''kind'', jsonOfKind (kind h))]"

definition jsonOfItem :: "ChecklistItem \<Rightarrow> json" where
  "jsonOfItem it =
    JObj [(''id'', JStr (item_id it)), (''text'', JStr (item_text it)),
          (''done'', JBool (item_done it))]"

fun jsonOfSection :: "Section \<Rightarrow> json" where
  "jsonOfSection (ChecklistSection i t items) =
    JObj [(''id'', JStr i), (''type'', JStr ''checklist''), (''title'', JStr t),
          (''items'', JArr (map jsonOfItem items))]"
| "jsonOfSection (NotesSection i t txt) =
    JObj [(''id'', JStr i), (''type'', JStr ''notes''), (''title'', JStr t),
          (''text'', JStr txt)]"
| "jsonOfSection (NumberSection i t v) =
    JObj [(''id'', JStr i), (''type'', JStr ''number''), (''title'', JStr t),
          (''value'', JNum v)]"

definition jsonOfMeta :: "Meta \<Rightarrow> json" where
  "jsonOfMeta m =
    JObj [(''weekStart'', JStr (weekStart m)), (''createdAt'', JStr (createdAt m)),
          (''theme'', JStr (theme m)), (''logoDataUrl'', JStr (logoDataUrl m))]"

definition jsonOfMetrics :: "Metrics \<Rightarrow> json" where
  "jsonOfMetrics m =
    JObj [(''realMetricLabel'', JStr (realMetricLabel m)),
          (''realMetricValue'', JStr (realMetricValue m)),
          (''screenTimeTarget'', JStr (screenTimeTarget m)),
          (''dailyInnerMinutes'', JArr (map JNum (dailyInnerMinutes m))),
          (''innerShareEstimate'', JNum (innerShareEstimate m))]"

definition jsonOfOneTime :: "OneTime \<Rightarrow> json" where
  "jsonOfOneTime x =
    JObj [(''whysTopic'', JStr (whysTopic x)), (''rootCause'', JStr (rootCause x)),
          (''vanityFrom'', JStr (vanityFrom x)), (''realTo'', JStr (realTo x)),
          (''seam'', JStr (seam x)), (''bridgeAction'', JStr (bridgeAction x)),
          (''bridgeWhen'', JStr (bridgeWhen x))]"

definition jsonOfReflection :: "Reflection \<Rightarrow> json" where
  "jsonOfReflection r =
    JObj [(''helped'', JStr (helped r)), (''overPolish'', JStr (overPolish r)),
          (''stop'', JStr (stop r)), (''cont'', JStr (cont r)), (''start'', JStr (start r)),
          (''nextInnerShare'', JNum (nextInnerShare r)),
          (''commitment'', JStr (commitment r))]"

definition jsonOfTicks :: "(string \<times> bool list) list \<Rightarrow> json" where
  "jsonOfTicks t = JObj (map (\<lambda>(k, arr). (k, JArr (map JBool arr))) t)"

definition jsonOfWeek :: "WeekState \<Rightarrow> json" where
  "jsonOfWeek w =
    JObj [(''meta'', jsonOfMeta (meta w)), (''metrics'', jsonOfMetrics (metrics w)),
          (''habits'', JArr (map jsonOfHabit (habits w))),
          (''ticks'', jsonOfTicks (ticks w)),
          (''sections'', JArr (map jsonOfSection (sections w))),
          (''oneTime'', jsonOfOneTime (oneTime w)),
          (''wins'', JArr (map JStr (wins w))),
          (''reflection'', jsonOfReflection (reflection w))]"

subsection \<open>Export and import\<close>

text \<open>
  \<^verbatim>\<open>exportJSON\<close> offers the file \<^verbatim>\<open>inner-<weekStartISO>.json\<close> holding
  \<^verbatim>\<open>JSON.stringify(week, null, 2)\<close>.
\<close>

definition exportJSON :: "string \<Rightarrow> json \<Rightarrow> string \<times> document" where
  "exportJSON weekStartISO week = (''inner-'' @ weekStartISO @ ''.json'', JSON_stringify week)"

text \<open>
  \<^verbatim>\<open>importJSON\<close>, once the file is read: the result is the week held after
  the handler and the text of the alert shown, if any.
\<close>

definition importJSON :: "document \<Rightarrow> json \<Rightarrow> json \<times> string option" where
  "importJSON file week =
    (case JSON_parse file of
       Inl e \<Rightarrow> (week, Some ''Could not read file'')
     | Inr data \<Rightarrow>
         if truthyOpt (getProp data ''meta'') \<and> truthyOpt (getProp data ''habits'')
            \<and> truthyOpt (getProp data ''ticks'')
         then (data, None)
         else (week, Some ''Invalid file format''))"

text \<open>A value has a top-level field: it is an object with that property.\<close>

definition hasField :: "json \<Rightarrow> string \<Rightarrow> bool" where
  "hasField data k = (getProp data k \<noteq> None)"

subsection \<open>Local storage\<close>

definition STORAGE_PREFIX :: string where
  "STORAGE_PREFIX = ''inner-tracker-v2.2:''"

text \<open>
  The initialiser of \<^verbatim>\<open>useLocalState\<close>: \<^verbatim>\<open>getItem\<close> gives \<^verbatim>\<open>null\<close> for a
  missing key, the empty text is falsy, and a throw of \<^verbatim>\<open>JSON.parse\<close> is
  caught. (The source declares the state cell twice, with the same
  initialiser; the model has it once.)
\<close>

definition useLocalState_init :: "(string \<rightharpoonup> document) \<Rightarrow> string \<Rightarrow> json \<Rightarrow> json" where
  "useLocalState_init storage key initial =
    (case storage key of
       None \<Rightarrow> initial
     | Some raw \<Rightarrow>
         if raw = EmptyText then initial
         else (case JSON_parse raw of Inl e \<Rightarrow> initial | Inr v \<Rightarrow> v))"

text \<open>Its effect: \<^verbatim>\<open>localStorage.setItem(key, JSON.stringify(state))\<close>.\<close>

definition useLocalState_effect ::
  "(string \<rightharpoonup> document) \<Rightarrow> string \<Rightarrow> json \<Rightarrow> (string \<rightharpoonup> document)" where
  "useLocalState_effect storage key state = storage(key \<mapsto> JSON_stringify state)"

text \<open>
  Loading the week of \<open>weekStartISO\<close> when the page mounts:
  \<^verbatim>\<open>useLocalState(storageKey, newWeekState(weekStartISO))\<close>.
\<close>

definition loadOrCreate :: "(string \<rightharpoonup> document) \<Rightarrow> string \<Rightarrow> string \<Rightarrow> json" where
  "loadOrCreate storage now weekStartISO =
    useLocalState_init storage (STORAGE_PREFIX @ weekStartISO)
      (jsonOfWeek (newWeekState now weekStartISO))"

section \<open>Switching weeks\<close>

text \<open>
  The part of the component's state that \<^verbatim>\<open>shiftWeek\<close> touches: the two
  \<^verbatim>\<open>useLocalState\<close> cells and the browser's storage.
\<close>

record App =
  weekStartISO :: string
  week :: WeekState
  localStorage :: "string \<rightharpoonup> document"

text \<open>
  The effects React runs after the render that follows a handler, in the order
  the component declares them. \<open>startChanged\<close> and \<open>weekChanged\<close> say which
  cells hold a new value (the dependency arrays are \<^verbatim>\<open>[key, state]\<close> for the
  two storage effects and \<^verbatim>\<open>[weekStartISO]\<close> for the third). The third effect
  rewrites \<^verbatim>\<open>meta.weekStart\<close> through \<^verbatim>\<open>setWeek\<close>, which renders again and
  stores the rewritten week. The initialiser of \<^verbatim>\<open>useState\<close> runs on the first
  render only, so no render reads the storage again.
\<close>

definition runEffects :: "bool \<Rightarrow> bool \<Rightarrow> App \<Rightarrow> App" where
  "runEffects startChanged weekChanged a =
    (let key = STORAGE_PREFIX @ weekStartISO a;
         s1 = (if startChanged
               then useLocalState_effect (localStorage a) ''inner-week-start''
                      (JStr (weekStartISO a))
               else localStorage a);
         s2 = (if startChanged \<or> weekChanged
               then useLocalState_effect s1 key (jsonOfWeek (week a))
               else s1)
     in if startChanged \<and> weekStart (meta (week a)) \<noteq> weekStartISO a
        then (let p = week a;
                  w = p\<lparr>meta := (meta p)\<lparr>weekStart := weekStartISO a\<rparr>\<rparr>
              in a\<lparr>week := w, localStorage := useLocalState_effect s2 key (jsonOfWeek w)\<rparr>)
        else a\<lparr>localStorage := s2\<rparr>)"

text \<open>
  \<^verbatim>\<open>shiftWeek(delta)\<close>. The calendar step
  \<^verbatim>\<open>formatISO\<close> of \<^verbatim>\<open>new Date(weekStartISO)\<close> moved by \<^verbatim>\<open>setDate\<close> is the
  platform's; it is the parameter \<open>dateShift\<close>, applied to the date and a
  number of days. \<^verbatim>\<open>!existing\<close> holds for a missing key and for the empty text.
\<close>

definition shiftWeek :: "(string \<Rightarrow> int \<Rightarrow> string) \<Rightarrow> string \<Rightarrow> int \<Rightarrow> App \<Rightarrow> App" where
  "shiftWeek dateShift now delta a =
    (let nextISO = dateShift (weekStartISO a) (delta * 7);
         existing = localStorage a (STORAGE_PREFIX @ nextISO);
         create = (existing = None \<or> existing = Some EmptyText)
     in runEffects (nextISO \<noteq> weekStartISO a) create
          (a\<lparr>weekStartISO := nextISO,
             week := (if create then newWeekState now nextISO else week a)\<rparr>))"

section \<open>Counts by kind, the strengthened invariant and sample data\<close>



text \<open>Every habit of the week, enabled or not, has its seven booleans.\<close>

definition allTicked :: "WeekState \<Rightarrow> bool" where
  "allTicked w =
    list_all (\<lambda>h. case map_of (ticks w) (habit_id h) of
                     None \<Rightarrow> False
                   | Some arr \<Rightarrow> length arr = 7)
             (habits w)"

text \<open>A fresh week, and the same week with Monday to Wednesday ticked for sleep.\<close>

definition freshWeek :: WeekState where
  "freshWeek = newWeekState ''2025-01-06T08:00:00.000Z'' ''2025-01-06''"

definition sampleWeek :: WeekState where
  "sampleWeek =
    freshWeek\<lparr>ticks := AList.update ''sleep'' [True, True, True, False, False, False, False]
                         (ticks freshWeek)\<rparr>"






text \<open>A week object whose only habit is enabled and has no entry in \<^verbatim>\<open>ticks\<close>.\<close>

definition orphanWeek :: WeekState where
  "orphanWeek = freshWeek\<lparr>habits := [mkHabit ''run-4821'' ''Run'' True Inner], ticks := []\<rparr>"

text \<open>A week to which a habit named Run was added when the random text began 0.1234.\<close>

definition twinWeek :: WeekState where
  "twinWeek = addHabit (Some ''Run'') ''0.1234567'' freshWeek"

text \<open>A week with one inner minute on Monday and none on the other days.\<close>

definition oneMinuteWeek :: WeekState where
  "oneMinuteWeek =
    freshWeek\<lparr>metrics := (metrics freshWeek)\<lparr>dailyInnerMinutes := [1, 0, 0, 0, 0, 0, 0]\<rparr>\<rparr>"

text \<open>
  A week whose Monday entry is the double nearest to 0.21 (the value
  \<open>7566047373982433 / 2^55\<close>), the other days being 0.
\<close>

definition fractionWeek :: WeekState where
  "fractionWeek =
    freshWeek\<lparr>metrics := (metrics freshWeek)
      \<lparr>dailyInnerMinutes := [7566047373982433 / 2 ^ 55, 0, 0, 0, 0, 0, 0]\<rparr>\<rparr>"

text \<open>A JSON file with \<^verbatim>\<open>meta\<close> and \<^verbatim>\<open>ticks\<close> and without \<^verbatim>\<open>habits\<close>.\<close>

definition noHabitsFile :: document where
  "noHabitsFile =
    Wellformed (JObj [(''meta'', JObj [(''weekStart'', JStr ''2025-01-06'')]),
                      (''ticks'', JObj [])])"

text \<open>
  The page showing the sample week, with that week and the pointer stored and
  nothing stored for the following week; and the two calendar steps between
  the Mondays 6 and 13 January 2025.
\<close>

definition sampleApp :: App where
  "sampleApp =
    \<lparr> weekStartISO = ''2025-01-06'',
      week = sampleWeek,
      localStorage =
        [''inner-week-start'' \<mapsto> JSON_stringify (JStr ''2025-01-06''),
         STORAGE_PREFIX @ ''2025-01-06'' \<mapsto> JSON_stringify (jsonOfWeek sampleWeek)] \<rparr>"

definition januaryStep :: "string \<Rightarrow> int \<Rightarrow> string" where
  "januaryStep d n =
    (if d = ''2025-01-06'' \<and> n = 7 then ''2025-01-13''
     else if d = ''2025-01-13'' \<and> n = - 7 then ''2025-01-06''
     else d)"

section \<open>Auxiliary facts\<close>

subsection \<open>Rounding to a double\<close>

lemma rne_of_int: "rne (of_int k) = k"
  by (simp add: rne_def)

lemma rne_close: "\<bar>of_int (rne y) - y\<bar> \<le> 1 / 2"
proof -
  have "of_int \<lfloor>y\<rfloor> \<le> y" "y < of_int \<lfloor>y\<rfloor> + 1" by linarith+
  then show ?thesis
    by (auto simp: rne_def Let_def abs_le_iff)
qed

lemma binade_bounds:
  assumes "x \<noteq> 0"
  shows "2 powi (binade x) \<le> \<bar>x\<bar> \<and> \<bar>x\<bar> < 2 powi (binade x + 1)"
proof -
  obtain p q where pq: "quotient_of \<bar>x\<bar> = (p, q)" by (cases "quotient_of \<bar>x\<bar>")
  have q: "0 < q" using pq by (rule quotient_of_denom_pos)
  have x: "\<bar>x\<bar> = of_int p / of_int q" using pq by (rule quotient_of_div)
  have "0 < \<bar>x\<bar>" using assms by simp
  then have p: "0 < p" using x q by (simp add: zero_less_divide_iff)
  define bp where "bp = bitlen p"
  define bq where "bq = bitlen q"
  have bp: "2 ^ nat (bp - 1) \<le> p" "p < 2 ^ nat bp" "1 \<le> bp"
    using bitlen_bounds [OF p] p by (auto simp: bp_def bitlen_alt_def)
  have bq: "2 ^ nat (bq - 1) \<le> q" "q < 2 ^ nat bq" "1 \<le> bq"
    using bitlen_bounds [OF q] q by (auto simp: bq_def bitlen_alt_def)
  have P1: "(2::rat) powi (bp - 1) \<le> of_int p"
  proof -
    have "(2::rat) powi (bp - 1) = of_int (2 ^ nat (bp - 1))"
      using bp(3) by (simp add: power_int_def)
    also have "\<dots> \<le> of_int p" using bp(1) by (simp only: of_int_le_iff)
    finally show ?thesis .
  qed
  have P2: "of_int p < (2::rat) powi bp"
  proof -
    have "of_int p < (of_int (2 ^ nat bp) :: rat)" using bp(2) by (simp only: of_int_less_iff)
    also have "\<dots> = 2 powi bp" using bp(3) by (simp add: power_int_def)
    finally show ?thesis .
  qed
  have Q1: "(2::rat) powi (bq - 1) \<le> of_int q"
  proof -
    have "(2::rat) powi (bq - 1) = of_int (2 ^ nat (bq - 1))"
      using bq(3) by (simp add: power_int_def)
    also have "\<dots> \<le> of_int q" using bq(1) by (simp only: of_int_le_iff)
    finally show ?thesis .
  qed
  have Q2: "of_int q < (2::rat) powi bq"
  proof -
    have "of_int q < (of_int (2 ^ nat bq) :: rat)" using bq(2) by (simp only: of_int_less_iff)
    also have "\<dots> = 2 powi bq" using bq(3) by (simp add: power_int_def)
    finally show ?thesis .
  qed
  define d where "d = bp - bq"
  have qpos: "(0::rat) < of_int q" using q by simp
  have lo: "(2::rat) powi (d - 1) \<le> \<bar>x\<bar>"
  proof -
    have "(2::rat) powi (d - 1) * of_int q \<le> 2 powi (d - 1) * 2 powi bq"
      using Q2 by (intro mult_left_mono) auto
    also have "\<dots> = 2 powi (bp - 1)"
      by (simp add: d_def flip: power_int_add)
    also have "\<dots> \<le> of_int p" by (rule P1)
    finally show ?thesis using qpos by (simp add: x pos_le_divide_eq)
  qed
  have hi: "\<bar>x\<bar> < (2::rat) powi (d + 1)"
  proof -
    have "of_int p < (2::rat) powi bp" by (rule P2)
    also have "\<dots> = 2 powi (d + 1) * 2 powi (bq - 1)"
      by (simp add: d_def flip: power_int_add)
    also have "\<dots> \<le> 2 powi (d + 1) * of_int q"
      using Q1 by (intro mult_left_mono) auto
    finally show ?thesis using qpos by (simp add: x pos_divide_less_eq)
  qed
  have b: "binade x = (if 2 powi d \<le> \<bar>x\<bar> then d else d - 1)"
    by (simp add: binade_def pq d_def bp_def bq_def)
  show ?thesis
  proof (cases "2 powi d \<le> \<bar>x\<bar>")
    case True
    then show ?thesis using hi by (simp add: b)
  next
    case False
    then show ?thesis using lo by (simp add: b)
  qed
qed

lemma binade_normal:
  assumes "2 powi (- 1022) \<le> \<bar>x\<bar>"
  shows "- 1022 \<le> binade x"
proof -
  have "x \<noteq> 0" using assms by (auto simp: power_int_def)
  from binade_bounds [OF this] assms
  have "(2::rat) powi (- 1022) < 2 powi (binade x + 1)" by linarith
  then have "- 1022 < binade x + 1"
    by (metis not_less one_le_numeral power_int_increasing)
  then show ?thesis by simp
qed

text \<open>In the normal range \<^const>\<open>fl\<close> is within half a unit in the last place.\<close>

lemma fl_close:
  assumes "0 < x" "2 powi (- 1022) \<le> x" "x \<le> 2 powi 1023"
  shows "\<exists>y. fl x = Num y \<and> \<bar>y - x\<bar> \<le> x / 2 ^ 53"
proof -
  define e where "e = binade x"
  define u :: rat where "u = 2 powi (e - 52)"
  define y where "y = of_int (rne (x / u)) * u"
  have x0: "x \<noteq> 0" using assms(1) by simp
  have b: "2 powi e \<le> x" "x < 2 powi (e + 1)"
    using binade_bounds [OF x0] assms(1) by (simp_all add: e_def)
  have n: "- 1022 \<le> e" using binade_normal [of x] assms(1,2) by (simp add: e_def)
  have u0: "0 < u" by (simp add: u_def)
  have "\<bar>of_int (rne (x / u)) - x / u\<bar> \<le> 1 / 2" by (rule rne_close)
  then have "\<bar>of_int (rne (x / u)) - x / u\<bar> * u \<le> 1 / 2 * u"
    using u0 by (intro mult_right_mono) auto
  then have "\<bar>(of_int (rne (x / u)) - x / u) * u\<bar> \<le> u / 2"
    using u0 by (simp add: abs_mult)
  then have c: "\<bar>y - x\<bar> \<le> u / 2"
    using u0 by (simp add: y_def left_diff_distrib)
  have "u / 2 = 2 powi e / 2 ^ 53"
  proof -
    have "(2::rat) powi (e - 52 + 52) = 2 powi (e - 52) * 2 powi 52"
      by (rule power_int_add) simp
    then show ?thesis by (simp add: u_def)
  qed
  also have "\<dots> \<le> x / 2 ^ 53" using b(1) by (simp add: divide_right_mono)
  finally have h: "u / 2 \<le> x / 2 ^ 53" .
  have d: "\<bar>y - x\<bar> \<le> x / 2 ^ 53" using c h by linarith
  have "\<bar>y\<bar> \<le> x + x / 2 ^ 53" using d assms(1) by linarith
  also have "\<dots> \<le> 2 powi 1023 + 2 powi 1023 / 2 ^ 53"
    using assms(3) by (intro add_mono divide_right_mono) auto
  also have "\<dots> < 2 powi 1024" by simp
  finally have o: "\<not> 2 powi 1024 \<le> \<bar>y\<bar>" by simp
  have "fl x = Num y"
    using x0 n o by (simp add: fl_def Let_def e_def [symmetric] max_def u_def [symmetric]
        y_def [symmetric])
  with d show ?thesis by blast
qed

lemma fl_exact:
  assumes "0 < x" "2 powi (- 1022) \<le> x" "x < 2 powi 1024"
    and "x / 2 powi (binade x - 52) = of_int k"
  shows "fl x = Num x"
proof -
  define e where "e = binade x"
  define u :: rat where "u = 2 powi (e - 52)"
  have x0: "x \<noteq> 0" using assms(1) by simp
  have n: "- 1022 \<le> e" using binade_normal [of x] assms(1,2) by (simp add: e_def)
  have u0: "u \<noteq> 0" by (simp add: u_def)
  have k: "x / u = of_int k" using assms(4) by (simp add: u_def e_def)
  then have "of_int (rne (x / u)) * u = x"
    using u0 by (simp add: rne_of_int nonzero_divide_eq_eq)
  then show ?thesis
    using x0 n assms(1,3)
    by (simp add: fl_def Let_def e_def [symmetric] max_def u_def [symmetric])
qed

lemma fl_of_nat:
  assumes "n \<le> 2 ^ 53"
  shows "fl (of_nat n) = Num (of_nat n)"
proof (cases "n = 0")
  case True
  then show ?thesis by (simp add: fl_def)
next
  case False
  define x :: rat where "x = of_nat n"
  define e where "e = binade x"
  have x1: "1 \<le> x" using False by (simp add: x_def)
  have x0: "x \<noteq> 0" "0 < x" using x1 by auto
  have xle: "x \<le> 2 ^ 53"
  proof -
    have "(of_nat n :: rat) \<le> of_nat (2 ^ 53)" using assms by (simp only: of_nat_le_iff)
    then show ?thesis by (simp add: x_def)
  qed
  have b: "2 powi e \<le> x" "x < 2 powi (e + 1)"
    using binade_bounds [OF x0(1)] x0(2) by (simp_all add: e_def)
  have e0: "0 \<le> e"
  proof -
    have "(2::rat) powi 0 < 2 powi (e + 1)" using b(2) x1 by simp
    then have "0 < e + 1" by (metis not_less one_le_numeral power_int_increasing)
    then show ?thesis by simp
  qed
  have e53: "e \<le> 53"
  proof -
    have "(2::rat) powi e \<le> 2 powi 53" using b(1) xle by simp
    then show ?thesis by (metis not_less one_less_numeral_iff power_int_strict_increasing semiring_norm(76))
  qed
  have "\<exists>k. x / 2 powi (e - 52) = of_int k"
  proof (cases "e \<le> 52")
    case True
    have "x / 2 powi (e - 52) = x * 2 powi (52 - e)"
      by (simp add: power_int_diff field_simps)
    also have "\<dots> = of_int (int n * 2 ^ nat (52 - e))"
      using True by (simp add: x_def power_int_def)
    finally show ?thesis by blast
  next
    case False
    then have e: "e = 53" using e53 by simp
    have "x = 2 ^ 53" using b(1) xle by (simp add: e)
    then have "x / 2 powi (e - 52) = of_int (2 ^ 52)" by (simp add: e)
    then show ?thesis by blast
  qed
  then obtain k where k: "x / 2 powi (binade x - 52) = of_int k" by (auto simp: e_def)
  have lo: "2 powi (- 1022) \<le> x"
  proof -
    have "(2::rat) powi (- 1022) \<le> 2 powi 0" by (intro power_int_increasing) auto
    then show ?thesis using x1 by simp
  qed
  have hi: "x < 2 powi 1024"
  proof -
    have "x \<le> 2 powi 53" using xle by simp
    also have "\<dots> < 2 powi 1024" by (intro power_int_strict_increasing) auto
    finally show ?thesis .
  qed
  show ?thesis using fl_exact [OF x0(2) lo hi k] by (simp add: x_def)
qed

lemma pct_close:
  fixes a b :: nat
  assumes "0 < a" "0 < b" "a < 2 ^ 60" "b < 2 ^ 60"
  shows "\<exists>z. js_mul (js_div (Num (of_nat a)) (Num (of_nat b))) (Num 100) = Num z
             \<and> \<bar>z - 100 * of_nat a / of_nat b\<bar> \<le> (100 * of_nat a / of_nat b) / 2 ^ 51"
proof -
  define q :: rat where "q = of_nat a / of_nat b"
  have b0: "(0::rat) < of_nat b" using assms(2) by simp
  have a1: "(1::rat) \<le> of_nat a" using assms(1) by simp
  have ah: "(of_nat a :: rat) \<le> 2 ^ 60"
  proof -
    have "(of_nat a :: rat) \<le> of_nat (2 ^ 60)" using assms(3) by (simp only: of_nat_le_iff)
    then show ?thesis by simp
  qed
  have b1: "(1::rat) \<le> of_nat b" using assms(2) by simp
  have bh: "(of_nat b :: rat) \<le> 2 ^ 60"
  proof -
    have "(of_nat b :: rat) \<le> of_nat (2 ^ 60)" using assms(4) by (simp only: of_nat_le_iff)
    then show ?thesis by simp
  qed
  have qlo: "1 / 2 ^ 60 \<le> q"
    unfolding q_def using a1 bh b0 by (intro frac_le) auto
  have qhi: "q \<le> 2 ^ 60"
  proof -
    have "q \<le> of_nat a / 1" unfolding q_def using b1 a1 by (intro divide_left_mono) auto
    then show ?thesis using ah by simp
  qed
  have "(0::rat) < 1 / 2 ^ 60" by simp
  then have q0: "0 < q" using qlo by linarith
  have n1: "(2::rat) powi (- 1022) \<le> 1 / 2 ^ 70"
  proof -
    have "(2::rat) powi (- 1022) \<le> 2 powi (- 70)" by (intro power_int_increasing) auto
    also have "\<dots> = 1 / 2 ^ 70" by (simp add: power_int_minus field_simps)
    finally show ?thesis .
  qed
  have n2: "(2 ^ 70 :: rat) \<le> 2 powi 1023"
  proof -
    have "(2::rat) powi 70 \<le> 2 powi 1023" by (intro power_int_increasing) auto
    then show ?thesis by simp
  qed
  have m1: "(1::rat) / 2 ^ 70 \<le> 1 / 2 ^ 60" by simp
  have m2: "(2::rat) ^ 60 \<le> 2 ^ 70" by simp
  have "2 powi (- 1022) \<le> q" using n1 m1 qlo by linarith
  moreover have "q \<le> 2 powi 1023" using qhi m2 n2 by linarith
  ultimately obtain q1 where q1: "fl q = Num q1" "\<bar>q1 - q\<bar> \<le> q / 2 ^ 53"
    using fl_close [OF q0] by blast
  define y where "y = q1 * 100"
  have pw: "(2::rat) ^ 53 = 9007199254740992" "(2::rat) ^ 51 = 2251799813685248"
    "(2::rat) ^ 60 = 1152921504606846976" "(2::rat) ^ 70 = 1180591620717411303424"
    by simp_all
  have y0: "0 < y" using q1(2) q0 unfolding y_def pw by linarith
  have ylo: "1 / 2 ^ 70 \<le> y" using q1(2) qlo q0 unfolding y_def pw by linarith
  have yhi: "y \<le> 2 ^ 70" using q1(2) qhi q0 unfolding y_def pw by linarith
  have "2 powi (- 1022) \<le> y" using n1 ylo by (rule order_trans)
  moreover have "y \<le> 2 powi 1023" using yhi n2 by (rule order_trans)
  ultimately obtain z where z: "fl y = Num z" "\<bar>z - y\<bar> \<le> y / 2 ^ 53"
    using fl_close [OF y0] by blast
  have b0': "of_nat b \<noteq> (0::rat)" using assms(2) by simp
  have e: "js_mul (js_div (Num (of_nat a)) (Num (of_nat b))) (Num 100) = Num z"
    using b0' by (simp add: q1(1) [unfolded q_def] z(1) [unfolded y_def])
  have x: "100 * of_nat a / of_nat b = 100 * q" by (simp add: q_def)
  have "\<bar>z - 100 * q\<bar> \<le> (100 * q) / 2 ^ 51"
    using q1(2) z(2) q0 unfolding y_def pw by linarith
  with e x show ?thesis by (simp only:) blast
qed

lemma round_stable:
  fixes x z :: rat and N D :: int
  assumes "0 < D" "x + 1 / 2 = of_int N / of_int D" "\<bar>z - x\<bar> < 1 / of_int D"
  shows "N div D - 1 \<le> \<lfloor>z + 1 / 2\<rfloor> \<and> \<lfloor>z + 1 / 2\<rfloor> \<le> N div D
         \<and> (N mod D \<noteq> 0 \<longrightarrow> \<lfloor>z + 1 / 2\<rfloor> = N div D)"
proof -
  define k where "k = N div D"
  define r where "r = N mod D"
  have N: "N = D * k + r" by (simp add: k_def r_def)
  have r: "0 \<le> r" "r < D" using assms(1) by (simp_all add: r_def)
  have D0: "(0::rat) < of_int D" using assms(1) by simp
  define g :: rat where "g = 1 / of_int D"
  have g: "0 < g" "g \<le> 1"
    using assms(1) by (simp_all add: g_def)
  have "of_int N / (of_int D :: rat) = of_int k + of_int r * g"
    using D0 by (simp add: N g_def field_simps)
  then have x: "x + 1 / 2 = of_int k + of_int r * g" using assms(2) by simp
  have z: "\<bar>z - x\<bar> < g" using assms(3) by (simp add: g_def)
  have rg0: "0 \<le> of_int r * g" using r(1) g(1) by simp
  have "of_int r * g \<le> of_int (D - 1) * g"
    using r(2) g(1) by (intro mult_right_mono) auto
  also have "\<dots> = 1 - g" using D0 by (simp add: g_def field_simps)
  finally have rg1: "of_int r * g \<le> 1 - g" .
  have "of_int k - 1 \<le> z + 1 / 2" using x z rg0 g by linarith
  then have lo: "of_int (k - 1) \<le> z + 1 / 2" by simp
  have "z + 1 / 2 < of_int k + 1" using x z rg1 g by linarith
  then have hi: "z + 1 / 2 < of_int (k + 1)" by simp
  have a: "k - 1 \<le> \<lfloor>z + 1 / 2\<rfloor>" using lo by (simp only: le_floor_iff)
  have "\<lfloor>z + 1 / 2\<rfloor> < k + 1" using hi by (simp only: floor_less_iff)
  then have b: "\<lfloor>z + 1 / 2\<rfloor> \<le> k" by simp
  have c: "\<lfloor>z + 1 / 2\<rfloor> = k" if "r \<noteq> 0"
  proof -
    have "1 \<le> r" using that r(1) by simp
    then have "1 * g \<le> of_int r * g" using g(1) by (intro mult_right_mono) auto
    then have "of_int k \<le> z + 1 / 2" using x z by linarith
    moreover have "z + 1 / 2 < of_int k + 1" using x z rg1 by linarith
    ultimately show ?thesis by (simp add: floor_eq_iff)
  qed
  from a b c show ?thesis by (simp add: k_def r_def)
qed

lemma round_quotient:
  fixes x :: rat and N D :: int
  assumes "x + 1 / 2 = of_int N / of_int D"
  shows "round x = N div D"
  by (simp add: round_def assms floor_divide_of_int_eq)

lemma halfway_if_divides:
  fixes x :: rat and N D :: int
  assumes "0 < D" "x + 1 / 2 = of_int N / of_int D" "N mod D = 0"
  shows "isHalfway x"
proof -
  have "N = D * (N div D)" using assms(3) by auto
  then have "of_int N / (of_int D :: rat) = of_int (N div D)"
    using assms(1) by (metis nonzero_mult_div_cancel_left of_int_eq_0_iff of_int_mult less_irrefl)
  then have x: "x = of_int (N div D) - 1 / 2" using assms(2) by simp
  have "\<lfloor>x\<rfloor> = N div D - 1" unfolding x by (simp add: floor_eq_iff)
  then show ?thesis by (simp add: isHalfway_def x)
qed

text \<open>The percentage computed by the page against the exact one.\<close>

lemma pct_round:
  fixes a b :: nat
  assumes "0 < b" "b < 2 ^ 60" "a < 2 ^ 43"
  shows "\<exists>s. Math_round (js_mul (js_div (Num (of_nat a)) (Num (of_nat b))) (Num 100))
               = Num (of_int s)
          \<and> 0 \<le> s
          \<and> round (100 * of_nat a / of_nat b :: rat) - 1 \<le> s
          \<and> s \<le> round (100 * of_nat a / of_nat b :: rat)
          \<and> (\<not> isHalfway (100 * of_nat a / of_nat b) \<longrightarrow>
                s = round (100 * of_nat a / of_nat b :: rat))
          \<and> ((200 * int a + int b) mod (2 * int b) \<noteq> 0 \<longrightarrow>
                s = round (100 * of_nat a / of_nat b :: rat))"
proof (cases "a = 0")
  case True
  have "of_nat b \<noteq> (0::rat)" using assms(1) by simp
  then show ?thesis by (simp add: True fl_def round_def)
next
  case False
  define x :: rat where "x = 100 * of_nat a / of_nat b"
  define N where "N = 200 * int a + int b"
  define D where "D = 2 * int b"
  have a0: "0 < a" using False by simp
  have "a < 2 ^ 60" using assms(3) by (rule less_trans) simp
  from pct_close [OF a0 assms(1) this assms(2)] obtain z where
    e: "js_mul (js_div (Num (of_nat a)) (Num (of_nat b))) (Num 100) = Num z"
    and c: "\<bar>z - x\<bar> \<le> x / 2 ^ 51"
    by (auto simp: x_def)
  have D0: "0 < D" using assms(1) by (simp add: D_def)
  have b0: "(0::rat) < of_nat b" using assms(1) by simp
  have x0: "0 \<le> x" by (simp add: x_def)
  have xq: "x + 1 / 2 = of_int N / of_int D"
    using b0 by (simp add: x_def N_def D_def field_simps)
  have "(of_nat (200 * a) :: rat) < of_nat (2 ^ 51)"
    using assms(3) by (simp only: of_nat_less_iff) simp
  then have "200 * of_nat a < (2 ^ 51 :: rat)" by simp
  then have "x * of_int D < 2 ^ 51"
    using b0 by (simp add: x_def D_def)
  then have "x / 2 ^ 51 < 1 / of_int D"
    using D0 by (simp add: field_simps)
  with c have zc: "\<bar>z - x\<bar> < 1 / of_int D" by linarith
  define s where "s = \<lfloor>z + 1 / 2\<rfloor>"
  have st: "N div D - 1 \<le> s" "s \<le> N div D" "N mod D \<noteq> 0 \<longrightarrow> s = N div D"
    using round_stable [OF D0 xq zc] by (simp_all add: s_def)
  have rq: "round x = N div D" using xq by (rule round_quotient)
  have h: "\<not> isHalfway x \<longrightarrow> s = round x"
    using halfway_if_divides [OF D0 xq] st(3) rq by auto
  have "x / 2 ^ 51 \<le> x" using x0 by (simp add: field_simps)
  then have "0 \<le> z" using c by linarith
  then have s0: "0 \<le> s" by (simp add: s_def)
  have "Math_round (js_mul (js_div (Num (of_nat a)) (Num (of_nat b))) (Num 100))
          = Num (of_int s)"
    unfolding e by (simp add: s_def)
  with s0 st h rq show ?thesis
    unfolding x_def [symmetric] N_def [symmetric] D_def [symmetric]
    by (intro exI [of _ s]) simp
qed

lemma rne_nearest: "\<bar>of_int m - y\<bar> < 1 / 2 \<Longrightarrow> rne y = m"
proof -
  assume a: "\<bar>of_int m - y\<bar> < 1 / 2"
  consider "\<lfloor>y\<rfloor> = m" | "\<lfloor>y\<rfloor> = m - 1"
  proof -
    have "of_int m - 1 \<le> y" using a by linarith
    then have "of_int (m - 1) \<le> y" by simp
    then have 1: "m - 1 \<le> \<lfloor>y\<rfloor>" by (simp only: le_floor_iff)
    have "y < of_int m + 1" using a by linarith
    then have "y < of_int (m + 1)" by simp
    then have "\<lfloor>y\<rfloor> < m + 1" by (simp only: floor_less_iff)
    with 1 have "\<lfloor>y\<rfloor> = m \<or> \<lfloor>y\<rfloor> = m - 1" by linarith
    then show ?thesis using that by blast
  qed
  then show ?thesis
  proof cases
    case 1
    have "y - of_int m < 1 / 2" using a by linarith
    then show ?thesis by (simp add: rne_def Let_def 1)
  next
    case 2
    have "1 / 2 < y - (of_int m - 1)" using a by linarith
    then have "1 / 2 < y - of_int (m - 1)" by simp
    then show ?thesis by (simp add: rne_def Let_def 2)
  qed
qed

lemma binade_unique:
  assumes "2 powi e \<le> \<bar>x\<bar>" "\<bar>x\<bar> < 2 powi (e + 1)"
  shows "binade x = e"
proof -
  have p: "(0::rat) < 2 powi e" by simp
  have x0: "x \<noteq> 0"
  proof
    assume "x = 0"
    then have "2 powi e \<le> (0::rat)" using assms(1) by simp
    with p show False by linarith
  qed
  from binade_bounds [OF x0]
  have b: "2 powi (binade x) \<le> \<bar>x\<bar>" "\<bar>x\<bar> < 2 powi (binade x + 1)" by simp_all
  have "(2::rat) powi (binade x) < 2 powi (e + 1)" using b(1) assms(2) by linarith
  then have 1: "binade x < e + 1" by (metis not_less one_le_numeral power_int_increasing)
  have "(2::rat) powi e < 2 powi (binade x + 1)" using b(2) assms(1) by linarith
  then have 2: "e < binade x + 1" by (metis not_less one_le_numeral power_int_increasing)
  from 1 2 show ?thesis by simp
qed

text \<open>
  Evaluating \<^const>\<open>fl\<close> on a positive number, given its exponent and the
  integer nearest to its scaled significand.
\<close>

lemma fl_nearest:
  assumes "0 < x" "2 powi e \<le> x" "x < 2 powi (e + 1)" "- 1022 \<le> e" "e \<le> 1022"
    and "\<bar>of_int m - x / 2 powi (e - 52)\<bar> < 1 / 2"
  shows "fl x = Num (of_int m * 2 powi (e - 52))"
proof -
  define u :: rat where "u = 2 powi (e - 52)"
  have b: "binade x = e" using assms(1,2,3) by (intro binade_unique) simp_all
  have r: "rne (x / u) = m" using assms(6) unfolding u_def by (rule rne_nearest)
  have u0: "0 < u" by (simp add: u_def)
  have "\<bar>of_int m - x / u\<bar> * u < 1 / 2 * u"
    using assms(6) u0 unfolding u_def [symmetric] by (intro mult_strict_right_mono)
  then have "\<bar>(of_int m - x / u) * u\<bar> < u / 2" using u0 by (simp add: abs_mult)
  then have c: "\<bar>of_int m * u - x\<bar> < u / 2" using u0 by (simp add: left_diff_distrib)
  have "(2::rat) powi (e - 52) \<le> 2 powi (e + 1)" by (intro power_int_increasing) auto
  then have "u \<le> 2 powi (e + 1)" by (simp add: u_def)
  then have "\<bar>of_int m * u\<bar> < 2 powi (e + 1) + 2 powi (e + 1)"
    using c assms(1,3) u0 by linarith
  also have "\<dots> = 2 powi (e + 1 + 1)" by (subst power_int_add [of 2 "e + 1" 1]) simp_all
  also have "\<dots> \<le> 2 powi 1024" using assms(5) by (intro power_int_increasing) auto
  finally have o: "\<not> 2 powi 1024 \<le> \<bar>of_int m * u\<bar>" by simp
  have x0: "x \<noteq> 0" using assms(1) by simp
  show ?thesis
    using x0 assms(4) o r
    by (simp add: fl_def b Let_def max_def u_def [symmetric])
qed




text \<open>The three roundings behind the double nearest to 0.21, over 14, times 100.\<close>

lemma fl_021: "fl (7566047373982433 / 2 ^ 55) = Num (7566047373982433 / 2 ^ 55)"
  using fl_nearest [of "7566047373982433 / 2 ^ 55" "- 3" 7566047373982433] by simp

lemma fl_021_14: "fl (7566047373982433 / 2 ^ 55 / 14) = Num (1080863910568919 / 2 ^ 56)"
  using fl_nearest [of "7566047373982433 / 2 ^ 55 / 14" "- 7" 8646911284551352] by simp

lemma fl_021_pct: "fl (1080863910568919 / 2 ^ 56 * 100) = Num (3 / 2)"
  using fl_nearest [of "1080863910568919 / 2 ^ 56 * 100" 0 6755399441055744] by simp

subsection \<open>Counting ticks\<close>

text \<open>
  With fewer than \<open>2^32\<close> habits (the bound on the length of a JavaScript
  array) and seven booleans per enabled habit, every count stays far below
  \<open>2^53\<close> and the additions of the page are exact.
\<close>

lemma js_add_nat:
  "a + b \<le> 2 ^ 53 \<Longrightarrow> js_add (Num (of_nat a)) (Num (of_nat b)) = Num (of_nat (a + b))"
  using fl_of_nat [of "a + b"] by simp












subsection \<open>The two percentages\<close>



lemma tagged_le_enabled:
  "length [h \<leftarrow> habits w. enabled h \<and> kind h = k] \<le> length (habits w)"
  by (rule length_filter_le)


subsection \<open>Whole minutes\<close>

text \<open>
  Non-negative whole minutes whose sum is below \<open>2^53\<close> are added exactly.
\<close>

lemma foldl_minutes_exact:
  "s + sum_list ns \<le> 2 ^ 53 \<Longrightarrow>
   foldl (\<lambda>a b. js_add a (Num (numberOrZero b))) (Num (of_nat s)) (map of_nat ns)
     = Num (of_nat (s + sum_list ns))"
proof (induction ns arbitrary: s)
  case Nil
  then show ?case by simp
next
  case (Cons n ns)
  have b: "s + n \<le> 2 ^ 53" "s + n + sum_list ns \<le> 2 ^ 53" using Cons.prems by simp_all
  have z: "numberOrZero (of_nat n) = of_nat n" by (simp add: numberOrZero_def)
  show ?case
    using Cons.IH [OF b(2)]
    by (simp add: z js_add_nat [OF b(1)] add.assoc del: js_add.simps)
qed

lemma targetInnerMinutes_14: "targetInnerMinutes = Num 14"
  using fl_of_nat [of 14] by (simp add: targetInnerMinutes_def)

lemma not_div_28: fixes T :: nat shows "(200 * int T + 14) mod 28 \<noteq> 0"
proof
  assume "(200 * int T + 14) mod 28 = 0"
  then have "28 dvd 200 * int T + 14" by (simp only: dvd_eq_mod_eq_0)
  moreover have "(4::int) dvd 28" by simp
  ultimately have "4 dvd 200 * int T + 14" by (rule dvd_trans [rotated])
  then have "(200 * int T + 14) mod 4 = 0" by (simp only: dvd_eq_mod_eq_0)
  moreover have "200 * int T + 14 = 4 * (50 * int T + 3) + 2" by simp
  ultimately have "(4 * (50 * int T + 3) + 2) mod 4 = 0" by simp
  then show False by (simp only: mod_mult_self4) simp
qed

lemma min_round_close:
  fixes x :: rat
  shows "\<bar>of_int (min 100 (round x)) - min 100 x\<bar> \<le> 1 / 2"
proof (cases "x < 100")
  case True
  then have "round x \<le> 100"
    by (metis round_mono round_of_int less_imp_le of_int_numeral)
  then have a: "min 100 (round x) = round x" by simp
  have b: "min 100 x = x" using True by simp
  show ?thesis unfolding a b by (rule of_int_round_abs_le)
next
  case False
  then have "100 \<le> round x"
    by (metis round_mono round_of_int not_less of_int_numeral)
  then have a: "min 100 (round x) = 100" by simp
  have b: "min 100 x = 100" using False by simp
  show ?thesis unfolding a b by simp
qed

lemma innerProgress_whole:
  assumes "dailyInnerMinutes (metrics w) = map of_nat ns" and "sum_list ns < 2 ^ 53"
  shows "totalInnerMinutes w = Num (of_nat (sum_list ns))
         \<and> innerProgress w
             = Num (of_int (min 100 (round (of_nat (sum_list ns) / 14 * 100 :: rat))))"
proof -
  define T where "T = sum_list ns"
  define x :: rat where "x = 100 * of_nat T / of_nat 14"
  have xe: "of_nat T / 14 * 100 = x" by (simp add: x_def)
  have "0 + sum_list ns \<le> 2 ^ 53" using assms(2) by simp
  from foldl_minutes_exact [OF this]
  have tot: "totalInnerMinutes w = Num (of_nat T)"
    by (simp add: totalInnerMinutes_def assms(1) T_def)
  have ip: "innerProgress w =
      Math_min (Num 100)
        (Math_round (js_mul (js_div (Num (of_nat T)) (Num (of_nat 14))) (Num 100)))"
    by (simp add: innerProgress_def tot targetInnerMinutes_14
             del: js_div.simps js_mul.simps Math_round.simps Math_min.simps)
  have ipx: "innerProgress w = Num (of_int (min 100 (round x)))"
  proof (cases "T \<le> 14")
    case True
    have "(200 * int T + 14) mod 28 \<noteq> 0" by (rule not_div_28)
    then have m: "(200 * int T + int 14) mod (2 * int 14) \<noteq> 0" by simp
    have T43: "T < 2 ^ 43" using True by (rule le_less_trans) simp
    have b14: "(0::nat) < 14" "(14::nat) < 2 ^ 60" by simp_all
    from pct_round [OF b14 T43] obtain s where
      s1: "Math_round (js_mul (js_div (Num (of_nat T)) (Num (of_nat 14))) (Num 100))
            = Num (of_int s)"
      and s2: "(200 * int T + int 14) mod (2 * int 14) \<noteq> 0 \<longrightarrow>
            s = round (100 * of_nat T / of_nat 14 :: rat)"
      by (elim exE conjE) (rule that, assumption+)
    have s: "Math_round (js_mul (js_div (Num (of_nat T)) (Num (of_nat 14))) (Num 100))
            = Num (of_int s)" "s = round x"
      using s1 s2 m unfolding x_def by (simp_all only: simp_thms)
    have "Math_min (Num 100) (Num (of_int s)) = Num (of_int (min 100 s))"
      by (simp add: min_def)
    then show ?thesis
      unfolding ip s(1) s(2) .
  next
    case False
    then have T15: "15 \<le> T" by simp
    have T0: "0 < T" using T15 by simp
    have T60: "T < 2 ^ 60" using assms(2) unfolding T_def by (rule less_trans) simp
    have b14: "(0::nat) < 14" "(14::nat) < 2 ^ 60" by simp_all
    from pct_close [OF T0 b14(1) T60 b14(2)] obtain z where
      z1: "js_mul (js_div (Num (of_nat T)) (Num (of_nat 14))) (Num 100) = Num z"
      and z2: "\<bar>z - 100 * of_nat T / of_nat 14\<bar> \<le> (100 * of_nat T / of_nat 14) / 2 ^ 51"
      by (elim exE conjE) (rule that, assumption+)
    have z: "js_mul (js_div (Num (of_nat T)) (Num (of_nat 14))) (Num 100) = Num z"
      "\<bar>z - x\<bar> \<le> x / 2 ^ 51"
      using z1 z2 by (simp_all only: x_def)
    have "(of_nat 15 :: rat) \<le> of_nat T" using T15 by (simp only: of_nat_le_iff)
    then have "(15 :: rat) \<le> of_nat T" by simp
    then have x107: "107 \<le> x" by (simp add: x_def)
    have pw: "(2::rat) ^ 51 = 2251799813685248" by simp
    have "101 \<le> z" using z(2) x107 unfolding pw by linarith
    then have "of_int 100 \<le> z + 1 / 2" by simp
    then have f: "100 \<le> \<lfloor>z + 1 / 2\<rfloor>" by (simp only: le_floor_iff)
    then have "(of_int 100 :: rat) \<le> of_int \<lfloor>z + 1 / 2\<rfloor>" by (simp only: of_int_le_iff)
    then have a: "min 100 (of_int \<lfloor>z + 1 / 2\<rfloor>) = (100 :: rat)" by simp
    have "(100 :: rat) \<le> x" using x107 by simp
    then have "round (100 :: rat) \<le> round x" by (rule round_mono)
    then have b: "min 100 (round x) = 100" by simp
    have "Math_min (Num 100) (Math_round (Num z)) = Num 100"
      using a by simp
    then show ?thesis
      unfolding ip z(1) b by simp
  qed
  have ip2: "innerProgress w = Num (of_int (min 100 (round (of_nat T / 14 * 100 :: rat))))"
    using ipx by (simp only: xe)
  show ?thesis using tot ip2 unfolding T_def by (rule conjI)
qed

subsection \<open>Ticking one day\<close>

lemma mapTick_nth:
  "i < length arr \<Longrightarrow> mapTick d v arr ! i = (if i = d then v else arr ! i)"
  by (simp add: mapTick_def)

lemma length_mapTick: "length (mapTick d v arr) = length arr"
  by (simp add: mapTick_def)

lemma mapTick_list_update: "mapTick d v arr = arr[d := v]"
  by (rule nth_equalityI) (auto simp: length_mapTick mapTick_nth)

lemma map_of_Some_key: "map_of al k = Some v \<Longrightarrow> k \<in> set (map fst al)"
  by (induction al) (auto split: if_splits)

subsection \<open>The invariant under the editing operations\<close>

lemma weekInvariant_if_allTicked: "allTicked w \<Longrightarrow> weekInvariant w"
  by (auto simp: allTicked_def weekInvariant_def enabledHabits_def list_all_iff)

lemma allTicked_newWeekState: "allTicked (newWeekState now d)"
  by (simp add: allTicked_def newWeekState_def DEFAULT_HABITS_def mkHabit_def)

lemma allTicked_addHabit: "allTicked w \<Longrightarrow> allTicked (addHabit answer rnd w)"
  by (auto simp: allTicked_def addHabit_def Let_def list_all_iff AList.update_conv'
           split: option.splits)

lemma allTicked_removeHabit: "allTicked w \<Longrightarrow> allTicked (removeHabit confirmed i w)"
  by (auto simp: allTicked_def removeHabit_def list_all_iff AList.delete_conv'
           split: option.splits)

lemma allTicked_setTick: "allTicked w \<Longrightarrow> setTick i d v w = Inr w' \<Longrightarrow> allTicked w'"
  by (auto simp: allTicked_def setTick_def list_all_iff AList.update_conv' length_mapTick
           split: option.splits if_splits)

lemma allTicked_setHabitName: "allTicked w \<Longrightarrow> allTicked (setHabitName i n w)"
  by (auto simp: allTicked_def setHabitName_def list_all_iff)

lemma allTicked_setHabitEnabled: "allTicked w \<Longrightarrow> allTicked (setHabitEnabled i en w)"
  by (auto simp: allTicked_def setHabitEnabled_def list_all_iff)

lemma allTicked_setHabitKind: "allTicked w \<Longrightarrow> allTicked (setHabitKind i k w)"
  by (auto simp: allTicked_def setHabitKind_def list_all_iff)

lemma allTicked_resetWeek: "allTicked w \<Longrightarrow> allTicked (resetWeek now d c answer w)"
  by (simp add: resetWeek_def allTicked_newWeekState)

lemma allTicked_other:
  "allTicked w \<Longrightarrow> habits w' = habits w \<Longrightarrow> ticks w' = ticks w \<Longrightarrow> allTicked w'"
  by (simp add: allTicked_def)

lemma editReachable_allTicked: "editReachable w \<Longrightarrow> allTicked w"
proof (induction rule: editReachable.induct)
  case (fresh now weekStartISO)
  show ?case by (rule allTicked_newWeekState)
next
  case (add w answer rnd)
  then show ?case by (simp add: allTicked_addHabit)
next
  case (remove w confirmed i)
  then show ?case by (simp add: allTicked_removeHabit)
next
  case (tick w i d v w')
  then show ?case by (blast intro: allTicked_setTick)
next
  case (rename w i n)
  then show ?case by (simp add: allTicked_setHabitName)
next
  case (enable w i en)
  then show ?case by (simp add: allTicked_setHabitEnabled)
next
  case (rekind w i k)
  then show ?case by (simp add: allTicked_setHabitKind)
next
  case (reset w now weekStartISO confirmText answer)
  then show ?case by (simp add: allTicked_resetWeek)
next
  case (other w w')
  then show ?case by (blast intro: allTicked_other)
qed

lemma ticks_addHabit:
  "name \<noteq> [] \<Longrightarrow>
   map_of (ticks (addHabit (Some name) rnd w)) (habitIdOf name rnd) = Some (replicate 7 False)"
  by (simp add: addHabit_def Let_def AList.update_conv')

lemma ticks_removeHabit: "map_of (ticks (removeHabit True i w)) i = None"
  by (simp add: removeHabit_def AList.delete_conv')

subsection \<open>Week objects as JavaScript values\<close>

text \<open>Different weeks are different values: \<^const>\<open>jsonOfWeek\<close> loses nothing.\<close>

lemma inj_jsonOfHabit: "inj jsonOfHabit"
proof (rule injI)
  fix h h' :: Habit
  assume "jsonOfHabit h = jsonOfHabit h'"
  then show "h = h'"
    by (cases h; cases h') (auto simp: jsonOfHabit_def jsonOfKind_def split: HabitKind.splits)
qed

lemma inj_jsonOfItem: "inj jsonOfItem"
proof (rule injI)
  fix x y :: ChecklistItem
  assume "jsonOfItem x = jsonOfItem y"
  then show "x = y" by (cases x; cases y) (simp add: jsonOfItem_def)
qed

lemma inj_jsonOfSection: "inj jsonOfSection"
proof (rule injI)
  fix x y :: Section
  assume "jsonOfSection x = jsonOfSection y"
  then show "x = y"
    by (cases x; cases y) (simp_all add: inj_map_eq_map [OF inj_jsonOfItem])
qed

lemma inj_JBool: "inj JBool" and inj_JStr: "inj JStr" and inj_JNum: "inj JNum"
  by (simp_all add: inj_def)

lemma inj_tickEntry: "inj (\<lambda>(k :: string, arr). (k, JArr (map JBool arr)))"
  by (rule injI) (auto simp: inj_map_eq_map [OF inj_JBool])

lemma jsonOfTicks_eq: "jsonOfTicks t = jsonOfTicks t' \<longleftrightarrow> t = t'"
  by (simp add: jsonOfTicks_def inj_map_eq_map [OF inj_tickEntry])

lemma jsonOfMeta_eq: "jsonOfMeta x = jsonOfMeta y \<longleftrightarrow> x = y"
  by (cases x; cases y) (simp add: jsonOfMeta_def)

lemma jsonOfMetrics_eq: "jsonOfMetrics x = jsonOfMetrics y \<longleftrightarrow> x = y"
  by (cases x; cases y) (simp add: jsonOfMetrics_def inj_map_eq_map [OF inj_JNum])

lemma jsonOfOneTime_eq: "jsonOfOneTime x = jsonOfOneTime y \<longleftrightarrow> x = y"
  by (cases x; cases y) (simp add: jsonOfOneTime_def)

lemma jsonOfReflection_eq: "jsonOfReflection x = jsonOfReflection y \<longleftrightarrow> x = y"
  by (cases x; cases y) (simp add: jsonOfReflection_def)

lemma jsonOfWeek_eq: "jsonOfWeek w = jsonOfWeek w' \<longleftrightarrow> w = w'"
  by (cases w; cases w')
     (simp add: jsonOfWeek_def jsonOfMeta_eq jsonOfMetrics_eq jsonOfOneTime_eq
        jsonOfReflection_eq jsonOfTicks_eq inj_map_eq_map [OF inj_jsonOfHabit]
        inj_map_eq_map [OF inj_jsonOfSection] inj_map_eq_map [OF inj_JStr])

lemma truthyOpt_hasField: "truthyOpt (getProp data k) \<Longrightarrow> hasField data k"
  by (auto simp: truthyOpt_def hasField_def split: option.splits)

lemma importJSON_jsonOfWeek:
  "importJSON (Wellformed (jsonOfWeek w)) cur = (jsonOfWeek w, None)"
  by (simp add: importJSON_def JSON_parse_def getProp_def truthyOpt_def jsonOfWeek_def
        jsonOfMeta_def jsonOfTicks_def)

subsection \<open>One shift of the week\<close>

lemma pointer_key_neq: "''inner-week-start'' \<noteq> STORAGE_PREFIX @ d"
  by (simp add: STORAGE_PREFIX_def)

text \<open>Forward to a week that has nothing stored: a fresh week is shown and stored.\<close>

lemma shiftWeek_to_missing:
  assumes "dateShift (weekStartISO a) 7 = B" "B \<noteq> weekStartISO a"
    and "localStorage a (STORAGE_PREFIX @ B) = None"
  shows "shiftWeek dateShift now 1 a =
           \<lparr>weekStartISO = B, week = newWeekState now B,
            localStorage = (localStorage a)
               (''inner-week-start'' \<mapsto> JSON_stringify (JStr B),
                STORAGE_PREFIX @ B \<mapsto> JSON_stringify (jsonOfWeek (newWeekState now B)))\<rparr>"
  using assms
  by (simp add: shiftWeek_def runEffects_def Let_def useLocalState_effect_def newWeekState_def)

text \<open>
  Back to a week that has a state stored: the week on screen stays, is stored
  under the key of the week moved to, and then gets that week's start date.
\<close>

lemma shiftWeek_to_existing:
  assumes "dateShift (weekStartISO a) (- 7) = A" "A \<noteq> weekStartISO a"
    and "localStorage a (STORAGE_PREFIX @ A) = Some (Wellformed v)"
    and "weekStart (meta (week a)) \<noteq> A"
  shows "shiftWeek dateShift now (- 1) a =
           \<lparr>weekStartISO = A,
            week = (week a)\<lparr>meta := (meta (week a))\<lparr>weekStart := A\<rparr>\<rparr>,
            localStorage = (localStorage a)
               (''inner-week-start'' \<mapsto> JSON_stringify (JStr A),
                STORAGE_PREFIX @ A \<mapsto>
                  JSON_stringify
                    (jsonOfWeek ((week a)\<lparr>meta := (meta (week a))\<lparr>weekStart := A\<rparr>\<rparr>)))\<rparr>"
  using assms
  by (simp add: shiftWeek_def runEffects_def Let_def useLocalState_effect_def)

section \<open>Habit score\<close>




section \<open>Inner and outer ticks\<close>




section \<open>Tick arrays of the habits\<close>

text \<open>
  Claim C3, as stated, fails on the import path: \<^verbatim>\<open>importJSON\<close> installs any
  document whose three top-level fields are truthy. The document below is
  accepted, and its enabled habit has no array in \<^verbatim>\<open>ticks\<close>.
\<close>

theorem import_breaks_tick_arrays:
  "importJSON (Wellformed (jsonOfWeek orphanWeek)) (jsonOfWeek freshWeek)
     = (jsonOfWeek orphanWeek, None)
   \<and> \<not> weekInvariant orphanWeek"
  by (simp add: importJSON_jsonOfWeek weekInvariant_def enabledHabits_def orphanWeek_def
        mkHabit_def)

text \<open>
  Claim C3, amended. Every week reached from a fresh week by the editing
  operations (adding and removing habits, ticking, renaming, enabling,
  changing the kind, resetting, and edits of the other fields) has an array of
  seven booleans for each enabled habit; adding, removing and ticking keep it
  so; removing a habit removes its array, and adding one stores an all-false
  array of length seven under the new id.
\<close>

theorem edits_keep_tick_arrays:
  assumes "editReachable w"
  shows "weekInvariant w
         \<and> (\<forall>answer rnd. weekInvariant (addHabit answer rnd w))
         \<and> (\<forall>confirmed i. weekInvariant (removeHabit confirmed i w))
         \<and> (\<forall>i d v w'. setTick i d v w = Inr w' \<longrightarrow> weekInvariant w')
         \<and> (\<forall>i. map_of (ticks (removeHabit True i w)) i = None)
         \<and> (\<forall>name rnd. name \<noteq> [] \<longrightarrow>
               map_of (ticks (addHabit (Some name) rnd w)) (habitIdOf name rnd)
                 = Some (replicate 7 False))"
proof -
  have t: "allTicked w" using assms by (rule editReachable_allTicked)
  have "weekInvariant w" using t by (rule weekInvariant_if_allTicked)
  moreover have "\<forall>answer rnd. weekInvariant (addHabit answer rnd w)"
    using t by (simp add: allTicked_addHabit weekInvariant_if_allTicked)
  moreover have "\<forall>confirmed i. weekInvariant (removeHabit confirmed i w)"
    using t by (simp add: allTicked_removeHabit weekInvariant_if_allTicked)
  moreover have "\<forall>i d v w'. setTick i d v w = Inr w' \<longrightarrow> weekInvariant w'"
    using t by (blast intro: allTicked_setTick weekInvariant_if_allTicked)
  ultimately show ?thesis
    by (simp add: ticks_addHabit ticks_removeHabit)
qed

text \<open>
  A fresh week to which the habit Run was added: it is reachable, it keeps the
  invariant, the new array is all false, and removing the habit removes it.
\<close>

theorem edits_keep_tick_arrays_witness:
  "editReachable twinWeek \<and> weekInvariant twinWeek
   \<and> map_of (ticks twinWeek) ''run-1234'' = Some (replicate 7 False)
   \<and> map_of (ticks (removeHabit True ''run-1234'' twinWeek)) ''run-1234'' = None"
proof -
  have r0: "editReachable freshWeek"
    unfolding freshWeek_def by (rule editReachable.fresh)
  have r: "editReachable twinWeek"
    unfolding twinWeek_def using r0 by (rule editReachable.add)
  have i: "habitIdOf ''Run'' ''0.1234567'' = ''run-1234''" by code_simp
  have "map_of (ticks (addHabit (Some ''Run'') ''0.1234567'' freshWeek))
          (habitIdOf ''Run'' ''0.1234567'') = Some (replicate 7 False)"
    using edits_keep_tick_arrays [OF r0] by simp
  with r edits_keep_tick_arrays [OF r] show ?thesis
    by (simp add: i twinWeek_def)
qed

section \<open>Import and export\<close>

text \<open>
  Claim C4. Whatever the file and the current week: if \<^verbatim>\<open>importJSON\<close>
  accepts the file (no alert) then the file parses as JSON, the parsed value
  has the top-level fields \<^verbatim>\<open>meta\<close>, \<^verbatim>\<open>habits\<close> and \<^verbatim>\<open>ticks\<close>, and it is the
  new week; if the file does not parse, or parses to a value that lacks one of
  the three fields, an alert is shown and the week is the current one; and
  these are the only two outcomes.
\<close>

theorem importJSON_gate:
  "(\<forall>data. importJSON file cur = (data, None) \<longrightarrow>
       JSON_parse file = Inr data
       \<and> hasField data ''meta'' \<and> hasField data ''habits'' \<and> hasField data ''ticks'')
   \<and> ((\<exists>e. JSON_parse file = Inl e) \<longrightarrow>
         importJSON file cur = (cur, Some ''Could not read file''))
   \<and> (\<forall>data. JSON_parse file = Inr data
         \<and> \<not> (hasField data ''meta'' \<and> hasField data ''habits'' \<and> hasField data ''ticks'')
         \<longrightarrow> importJSON file cur = (cur, Some ''Invalid file format''))
   \<and> ((\<exists>data. importJSON file cur = (data, None))
        \<or> (\<exists>msg. importJSON file cur = (cur, Some msg)))"
proof (cases "JSON_parse file")
  case (Inl e)
  then show ?thesis by (simp add: importJSON_def)
next
  case (Inr data)
  then show ?thesis
    by (auto simp: importJSON_def dest: truthyOpt_hasField)
qed

text \<open>
  A file without \<^verbatim>\<open>habits\<close> and a file that is not JSON are refused and leave
  the sample week in place; the sample week itself, once accepted, has the
  field \<^verbatim>\<open>habits\<close>.
\<close>

theorem importJSON_gate_witness:
  "importJSON noHabitsFile (jsonOfWeek sampleWeek)
     = (jsonOfWeek sampleWeek, Some ''Invalid file format'')
   \<and> importJSON Malformed (jsonOfWeek sampleWeek)
     = (jsonOfWeek sampleWeek, Some ''Could not read file'')
   \<and> hasField (jsonOfWeek sampleWeek) ''habits''"
proof -
  let ?d = "JObj [(''meta'', JObj [(''weekStart'', JStr ''2025-01-06'')]), (''ticks'', JObj [])]"
  have p: "JSON_parse noHabitsFile = Inr ?d"
    by (simp add: noHabitsFile_def JSON_parse_def)
  have n: "\<not> (hasField ?d ''meta'' \<and> hasField ?d ''habits'' \<and> hasField ?d ''ticks'')"
    by (simp add: hasField_def getProp_def)
  have a: "importJSON noHabitsFile (jsonOfWeek sampleWeek)
            = (jsonOfWeek sampleWeek, Some ''Invalid file format'')"
    using importJSON_gate [of noHabitsFile "jsonOfWeek sampleWeek"] p n by blast
  have m: "\<exists>e. JSON_parse Malformed = Inl e"
    by (simp add: JSON_parse_def)
  have b: "importJSON Malformed (jsonOfWeek sampleWeek)
            = (jsonOfWeek sampleWeek, Some ''Could not read file'')"
    using importJSON_gate [of Malformed "jsonOfWeek sampleWeek"] m by blast
  have acc: "importJSON (Wellformed (jsonOfWeek sampleWeek)) JNull
              = (jsonOfWeek sampleWeek, None)"
    by (rule importJSON_jsonOfWeek)
  have c: "hasField (jsonOfWeek sampleWeek) ''habits''"
    using importJSON_gate [of "Wellformed (jsonOfWeek sampleWeek)" JNull] acc by blast
  from a b c show ?thesis by simp
qed

text \<open>
  Claim C5. For every week \<open>w\<close>, importing the document that \<^verbatim>\<open>exportJSON\<close>
  writes for \<open>w\<close> is accepted without an alert and makes \<open>w\<close> the week,
  whatever the week was before: the value installed is the value of \<open>w\<close>, and
  it is the value of no other week. (Numbers are finite, and the platform's
  \<^verbatim>\<open>JSON.parse\<close> returns the value \<^verbatim>\<open>JSON.stringify\<close> was given.)
\<close>

theorem export_import_roundtrip:
  "importJSON (snd (exportJSON d (jsonOfWeek w))) cur = (jsonOfWeek w, None)
   \<and> (fst (importJSON (snd (exportJSON d (jsonOfWeek w))) cur) = jsonOfWeek w'
        \<longleftrightarrow> w' = w)"
  by (auto simp: exportJSON_def JSON_stringify_def importJSON_jsonOfWeek jsonOfWeek_eq)

text \<open>
  The sample week, exported and imported over a fresh week: the week is the
  sample week, and not the fresh one.
\<close>

theorem export_import_roundtrip_witness:
  "importJSON (snd (exportJSON ''2025-01-06'' (jsonOfWeek sampleWeek))) (jsonOfWeek freshWeek)
     = (jsonOfWeek sampleWeek, None)
   \<and> fst (importJSON (snd (exportJSON ''2025-01-06'' (jsonOfWeek sampleWeek)))
            (jsonOfWeek freshWeek)) \<noteq> jsonOfWeek freshWeek"
proof -
  have "ticks freshWeek \<noteq> ticks sampleWeek" by code_simp
  then have "freshWeek \<noteq> sampleWeek" by (metis (no_types))
  with export_import_roundtrip
         [of "''2025-01-06''" sampleWeek "jsonOfWeek freshWeek" freshWeek]
  show ?thesis by blast
qed

section \<open>Adding and removing a habit\<close>

text \<open>
  Claim C6, as stated, fails when the generated id is already in use. The id
  is the slug of the name and four digits of \<^verbatim>\<open>Math.random()\<close>; a second habit
  Run whose random text begins with the same four digits gets the id of the
  first, and removing it removes both.
\<close>

theorem add_then_remove_collision:
  "habitIdOf ''Run'' ''0.1234987'' = ''run-1234''
   \<and> ''run-1234'' \<in> set (map habit_id (enabledHabits twinWeek))
   \<and> ''run-1234'' \<notin> set (map habit_id (enabledHabits
        (removeHabit True (habitIdOf ''Run'' ''0.1234987'')
           (addHabit (Some ''Run'') ''0.1234987'' twinWeek))))
   \<and> enabledHabits (removeHabit True (habitIdOf ''Run'' ''0.1234987'')
         (addHabit (Some ''Run'') ''0.1234987'' twinWeek))
       \<noteq> enabledHabits twinWeek"
  by code_simp

text \<open>
  Claim C6, amended. For every week \<open>w\<close> and non-empty habit name, if no
  enabled habit of \<open>w\<close> has the id that \<^verbatim>\<open>addHabit\<close> generates, then adding
  the habit and removing it (with the removal confirmed) gives back the
  enabled habits of \<open>w\<close>; and in every case the tick array under that id is
  gone.
\<close>

theorem add_then_remove_habit:
  assumes "name \<noteq> []"
    and "habitIdOf name rnd \<notin> set (map habit_id (enabledHabits w))"
  shows "enabledHabits (removeHabit True (habitIdOf name rnd) (addHabit (Some name) rnd w))
           = enabledHabits w
         \<and> map_of (ticks (removeHabit True (habitIdOf name rnd) (addHabit (Some name) rnd w)))
             (habitIdOf name rnd) = None"
proof -
  let ?i = "habitIdOf name rnd"
  have "filter (\<lambda>h. enabled h \<and> habit_id h \<noteq> ?i) (habits w) = filter enabled (habits w)"
    using assms(2) by (intro filter_cong) (force simp: enabledHabits_def)+
  then have "enabledHabits (removeHabit True ?i (addHabit (Some name) rnd w)) = enabledHabits w"
    using assms(1)
    by (simp add: enabledHabits_def removeHabit_def addHabit_def Let_def conj_commute)
  then show ?thesis by (simp add: ticks_removeHabit)
qed

text \<open>A second habit Run with other random digits, added and removed again.\<close>

theorem add_then_remove_habit_witness:
  "habitIdOf ''Run'' ''0.4821553'' \<notin> set (map habit_id (enabledHabits twinWeek))
   \<and> enabledHabits (removeHabit True (habitIdOf ''Run'' ''0.4821553'')
        (addHabit (Some ''Run'') ''0.4821553'' twinWeek)) = enabledHabits twinWeek
   \<and> map_of (ticks (removeHabit True (habitIdOf ''Run'' ''0.4821553'')
        (addHabit (Some ''Run'') ''0.4821553'' twinWeek)))
        (habitIdOf ''Run'' ''0.4821553'') = None"
proof -
  have n: "''Run'' \<noteq> []" by simp
  have f: "habitIdOf ''Run'' ''0.4821553'' \<notin> set (map habit_id (enabledHabits twinWeek))"
    by code_simp
  from add_then_remove_habit [OF n f] f show ?thesis by simp
qed

section \<open>Shifting the week forth and back\<close>

text \<open>
  Claim C7 does not hold of the page. Let the page show week \<open>A\<close> with its
  state stored, let nothing be stored for the following week \<open>B\<close>, and let
  the calendar lead from \<open>A\<close> to \<open>B\<close> and back. After \<^verbatim>\<open>shiftWeek(1)\<close> and
  \<^verbatim>\<open>shiftWeek(-1)\<close> the pointer is \<open>A\<close> again, but what is stored for \<open>A\<close>
  is the fresh week created for \<open>B\<close>, relabelled with the start date \<open>A\<close>:
  on the way back the page finds a stored state for \<open>A\<close>, so it creates
  nothing, never reads that state, and stores the week it shows under the
  key of \<open>A\<close>.
\<close>

theorem shiftWeek_forth_and_back:
  assumes "dateShift A 7 = B" and "dateShift B (- 7) = A" and "A \<noteq> B"
    and "weekStartISO a = A"
    and "localStorage a (STORAGE_PREFIX @ A) = Some (JSON_stringify (jsonOfWeek (week a)))"
    and "localStorage a (STORAGE_PREFIX @ B) = None"
  shows "weekStartISO (shiftWeek dateShift now' (- 1) (shiftWeek dateShift now 1 a)) = A
         \<and> localStorage (shiftWeek dateShift now' (- 1) (shiftWeek dateShift now 1 a))
              (STORAGE_PREFIX @ A)
            = Some (JSON_stringify (jsonOfWeek
                ((newWeekState now B)\<lparr>meta := (meta (newWeekState now B))\<lparr>weekStart := A\<rparr>\<rparr>)))"
proof -
  let ?a1 = "shiftWeek dateShift now 1 a"
  have 1: "?a1 = \<lparr>weekStartISO = B, week = newWeekState now B,
            localStorage = (localStorage a)
               (''inner-week-start'' \<mapsto> JSON_stringify (JStr B),
                STORAGE_PREFIX @ B \<mapsto> JSON_stringify (jsonOfWeek (newWeekState now B)))\<rparr>"
    using assms by (intro shiftWeek_to_missing) auto
  have s: "localStorage ?a1 (STORAGE_PREFIX @ A) = Some (Wellformed (jsonOfWeek (week a)))"
    using assms(3,5) by (simp add: 1 pointer_key_neq [symmetric] JSON_stringify_def)
  have w: "weekStart (meta (week ?a1)) \<noteq> A"
    using assms(3) by (simp add: 1 newWeekState_def)
  have d: "dateShift (weekStartISO ?a1) (- 7) = A" "A \<noteq> weekStartISO ?a1"
    using assms(2,3) by (simp_all add: 1)
  have 2: "shiftWeek dateShift now' (- 1) ?a1 =
           \<lparr>weekStartISO = A,
            week = (week ?a1)\<lparr>meta := (meta (week ?a1))\<lparr>weekStart := A\<rparr>\<rparr>,
            localStorage = (localStorage ?a1)
               (''inner-week-start'' \<mapsto> JSON_stringify (JStr A),
                STORAGE_PREFIX @ A \<mapsto>
                  JSON_stringify
                    (jsonOfWeek ((week ?a1)\<lparr>meta := (meta (week ?a1))\<lparr>weekStart := A\<rparr>\<rparr>)))\<rparr>"
    using d s w by (rule shiftWeek_to_existing)
  have 3: "week ?a1 = newWeekState now B" by (simp add: 1)
  show ?thesis
    unfolding 2 3 by simp
qed

text \<open>
  The sample page, shifted from 6 January 2025 to 13 January and back: the
  pointer returns, and the three ticks stored for 6 January are overwritten.
\<close>

theorem shiftWeek_forth_and_back_witness:
  "weekStartISO (shiftWeek januaryStep ''2025-01-13T09:05:00.000Z'' (- 1)
       (shiftWeek januaryStep ''2025-01-13T09:00:00.000Z'' 1 sampleApp)) = ''2025-01-06''
   \<and> localStorage sampleApp (STORAGE_PREFIX @ ''2025-01-06'')
       = Some (JSON_stringify (jsonOfWeek sampleWeek))
   \<and> localStorage (shiftWeek januaryStep ''2025-01-13T09:05:00.000Z'' (- 1)
       (shiftWeek januaryStep ''2025-01-13T09:00:00.000Z'' 1 sampleApp))
        (STORAGE_PREFIX @ ''2025-01-06'')
       \<noteq> localStorage sampleApp (STORAGE_PREFIX @ ''2025-01-06'')"
proof -
  let ?A = "''2025-01-06''" and ?B = "''2025-01-13''"
  let ?n = "newWeekState ''2025-01-13T09:00:00.000Z'' ?B"
  have c: "januaryStep ?A 7 = ?B" "januaryStep ?B (- 7) = ?A" "?A \<noteq> ?B"
    by (simp_all add: januaryStep_def)
  have p: "weekStartISO sampleApp = ?A" by (simp add: sampleApp_def)
  have sA: "localStorage sampleApp (STORAGE_PREFIX @ ?A)
              = Some (JSON_stringify (jsonOfWeek (week sampleApp)))"
    by (simp add: sampleApp_def)
  have sB: "localStorage sampleApp (STORAGE_PREFIX @ ?B) = None"
    by (simp add: sampleApp_def STORAGE_PREFIX_def)
  have wk: "week sampleApp = sampleWeek" by (simp add: sampleApp_def)
  have "ticks (?n\<lparr>meta := (meta ?n)\<lparr>weekStart := ?A\<rparr>\<rparr>) \<noteq> ticks sampleWeek"
    by code_simp
  then have ne: "?n\<lparr>meta := (meta ?n)\<lparr>weekStart := ?A\<rparr>\<rparr> \<noteq> sampleWeek"
    by (metis (no_types))
  from shiftWeek_forth_and_back [OF c p sA sB,
         of "''2025-01-13T09:05:00.000Z''" "''2025-01-13T09:00:00.000Z''"]
  show ?thesis
    using sA ne by (simp add: wk JSON_stringify_def jsonOfWeek_eq)
qed

section \<open>Loading a week from storage\<close>

text \<open>
  Claim C8, as stated, fails for stored data that parses as JSON and is not a
  week: the initialiser returns the parsed value as it is. With the text
  \<^verbatim>\<open>null\<close> stored under the key of the week, the value loaded is
  \<^verbatim>\<open>null\<close>, which is not the default week and has no \<^verbatim>\<open>habits\<close>.
\<close>

theorem loadOrCreate_unchecked_shape:
  "loadOrCreate [STORAGE_PREFIX @ ''2025-01-13'' \<mapsto> Wellformed JNull]
      ''2025-01-13T09:00:00.000Z'' ''2025-01-13'' = JNull
   \<and> JNull \<noteq> jsonOfWeek (newWeekState ''2025-01-13T09:00:00.000Z'' ''2025-01-13'')
   \<and> getProp JNull ''habits'' = None"
  by (simp add: loadOrCreate_def useLocalState_init_def JSON_parse_def jsonOfWeek_def
        getProp_def)

text \<open>
  Claim C8, amended. For every storage content, clock reading and week-start
  date, the week loaded when the page mounts is the value parsed from the text
  stored under the key of that week when that text is JSON (so a stored week
  is loaded as it was stored), and the fresh default week in every other case:
  nothing stored, the empty text, or a text that is not JSON (the throw of
  \<^verbatim>\<open>JSON.parse\<close> is caught, so loading never fails). The shape of a parsed
  value is not checked.
\<close>

theorem loadOrCreate_spec:
  "loadOrCreate storage now d =
     (case storage (STORAGE_PREFIX @ d) of
        Some (Wellformed v) \<Rightarrow> v
      | _ \<Rightarrow> jsonOfWeek (newWeekState now d))
   \<and> (storage (STORAGE_PREFIX @ d) = Some (JSON_stringify (jsonOfWeek w))
        \<longrightarrow> loadOrCreate storage now d = jsonOfWeek w)
   \<and> (storage (STORAGE_PREFIX @ d) = None \<or> storage (STORAGE_PREFIX @ d) = Some EmptyText
        \<or> storage (STORAGE_PREFIX @ d) = Some Malformed
        \<longrightarrow> loadOrCreate storage now d = jsonOfWeek (newWeekState now d))"
  by (auto simp: loadOrCreate_def useLocalState_init_def JSON_parse_def JSON_stringify_def
           split: option.splits document.splits)

text \<open>
  The storage of the sample page holds the sample week for 6 January and
  nothing for 13 January; a third storage holds a text that is not JSON.
\<close>

theorem loadOrCreate_spec_witness:
  "loadOrCreate (localStorage sampleApp) ''2025-01-13T09:00:00.000Z'' ''2025-01-06''
     = jsonOfWeek sampleWeek
   \<and> loadOrCreate (localStorage sampleApp) ''2025-01-13T09:00:00.000Z'' ''2025-01-13''
     = jsonOfWeek (newWeekState ''2025-01-13T09:00:00.000Z'' ''2025-01-13'')
   \<and> loadOrCreate [STORAGE_PREFIX @ ''2025-01-13'' \<mapsto> Malformed]
        ''2025-01-13T09:00:00.000Z'' ''2025-01-13''
     = jsonOfWeek (newWeekState ''2025-01-13T09:00:00.000Z'' ''2025-01-13'')"
proof -
  have a: "localStorage sampleApp (STORAGE_PREFIX @ ''2025-01-06'')
             = Some (JSON_stringify (jsonOfWeek sampleWeek))"
    by (simp add: sampleApp_def)
  have b: "localStorage sampleApp (STORAGE_PREFIX @ ''2025-01-13'') = None"
    by (simp add: sampleApp_def STORAGE_PREFIX_def)
  have c: "[STORAGE_PREFIX @ ''2025-01-13'' \<mapsto> Malformed] (STORAGE_PREFIX @ ''2025-01-13'')
             = Some Malformed"
    by simp
  from loadOrCreate_spec [of "localStorage sampleApp" _ "''2025-01-06''" sampleWeek] a
  have 1: "loadOrCreate (localStorage sampleApp) ''2025-01-13T09:00:00.000Z'' ''2025-01-06''
     = jsonOfWeek sampleWeek" by blast
  from loadOrCreate_spec [of "localStorage sampleApp" _ "''2025-01-13''"] b
  have 2: "loadOrCreate (localStorage sampleApp) ''2025-01-13T09:00:00.000Z'' ''2025-01-13''
     = jsonOfWeek (newWeekState ''2025-01-13T09:00:00.000Z'' ''2025-01-13'')" by blast
  from loadOrCreate_spec [of "[STORAGE_PREFIX @ ''2025-01-13'' \<mapsto> Malformed]" _
         "''2025-01-13''"] c
  have 3: "loadOrCreate [STORAGE_PREFIX @ ''2025-01-13'' \<mapsto> Malformed]
        ''2025-01-13T09:00:00.000Z'' ''2025-01-13''
     = jsonOfWeek (newWeekState ''2025-01-13T09:00:00.000Z'' ''2025-01-13'')" by blast
  from 1 2 3 show ?thesis by simp
qed

section \<open>Inner-minutes progress\<close>

text \<open>
  Claim C9, as stated, leaves out the rounding: with one inner minute in the
  week the page shows 7, and the claimed value is 50/7. With minutes that are
  not whole numbers the double arithmetic of the page shows as well: for the
  double nearest to 0.21 the page shows 2, while that value over 14 times 100
  is just below 1.5 and rounds to 1.
\<close>

theorem innerProgress_is_rounded:
  "innerProgress oneMinuteWeek = Num 7
   \<and> min 100 (sum_list (dailyInnerMinutes (metrics oneMinuteWeek)) / 14 * 100) = (50 / 7 :: rat)
   \<and> innerProgress fractionWeek = Num 2
   \<and> min 100 (round (sum_list (dailyInnerMinutes (metrics fractionWeek)) / 14 * 100)) = 1"
proof -
  have m: "dailyInnerMinutes (metrics oneMinuteWeek) = map of_nat [1, 0, 0, 0, 0, 0, 0]"
    by (simp add: oneMinuteWeek_def)
  have "innerProgress oneMinuteWeek
          = Num (of_int (min 100 (round (of_nat (sum_list [1, 0, 0, 0, 0, 0, 0]) / 14 * 100 :: rat))))"
    using innerProgress_whole [OF m] by simp
  moreover have "round (of_nat (sum_list [1, 0, 0, 0, 0, 0, 0]) / 14 * 100 :: rat) = 7"
    by (simp add: round_def floor_eq_iff)
  ultimately have a: "innerProgress oneMinuteWeek = Num 7" by simp
  have b: "min 100 (sum_list (dailyInnerMinutes (metrics oneMinuteWeek)) / 14 * 100)
             = (50 / 7 :: rat)"
    by (simp add: oneMinuteWeek_def)
  have f: "dailyInnerMinutes (metrics fractionWeek)
             = [7566047373982433 / 2 ^ 55, 0, 0, 0, 0, 0, 0]"
    by (simp add: fractionWeek_def)
  have t: "totalInnerMinutes fractionWeek = Num (7566047373982433 / 2 ^ 55)"
    using fl_021 by (simp add: totalInnerMinutes_def f numberOrZero_def)
  have "\<lfloor>3 / 2 + 1 / 2 :: rat\<rfloor> = 2" by (simp add: floor_eq_iff)
  then have c: "innerProgress fractionWeek = Num 2"
    using fl_021_14 fl_021_pct
    by (simp add: innerProgress_def t targetInnerMinutes_14)
  have d: "min 100 (round (sum_list (dailyInnerMinutes (metrics fractionWeek)) / 14 * 100))
             = 1"
    by (simp add: f round_def floor_eq_iff)
  show ?thesis using a b c d by (simp only: simp_thms)
qed

text \<open>
  Claim C9, amended. For every week whose \<^verbatim>\<open>dailyInnerMinutes\<close> entries are
  non-negative whole numbers with a sum below \<open>2^53\<close>, the total of the weekly
  minutes is the sum of the entries, and the inner-minutes progress is the
  smaller of 100 and that total over 14 times 100 rounded to the nearest
  integer; it differs from the unrounded value of the claim by at most one
  half.
\<close>

theorem innerProgress_spec:
  assumes "dailyInnerMinutes (metrics w) = map of_nat ns" and "sum_list ns < 2 ^ 53"
  shows "totalInnerMinutes w = Num (of_nat (sum_list ns))
         \<and> innerProgress w
             = Num (of_int (min 100 (round (of_nat (sum_list ns) / 14 * 100 :: rat))))
         \<and> \<bar>of_int (min 100 (round (of_nat (sum_list ns) / 14 * 100 :: rat)))
              - min 100 (of_nat (sum_list ns) / 14 * 100 :: rat)\<bar> \<le> 1 / 2"
  using innerProgress_whole [OF assms] min_round_close [of "of_nat (sum_list ns) / 14 * 100"]
  by (simp only: simp_thms)

text \<open>Fourteen minutes give 100, one minute gives 7.\<close>

theorem innerProgress_spec_witness:
  "dailyInnerMinutes (metrics freshWeek) = map of_nat [2, 2, 2, 2, 2, 2, 2]
   \<and> innerProgress freshWeek = Num 100
   \<and> dailyInnerMinutes (metrics oneMinuteWeek) = map of_nat [1, 0, 0, 0, 0, 0, 0]
   \<and> innerProgress oneMinuteWeek = Num 7"
proof -
  have m: "dailyInnerMinutes (metrics freshWeek) = map of_nat [2, 2, 2, 2, 2, 2, 2]"
    by (simp add: freshWeek_def newWeekState_def numeral_eq_Suc)
  have m': "dailyInnerMinutes (metrics oneMinuteWeek) = map of_nat [1, 0, 0, 0, 0, 0, 0]"
    by (simp add: oneMinuteWeek_def)
  have r: "round (14 / 14 * 100 :: rat) = 100" "round (1 / 14 * 100 :: rat) = 7"
    by (simp_all add: round_def floor_eq_iff)
  have a: "innerProgress freshWeek = Num 100"
    using innerProgress_spec [OF m] r(1) by simp
  have b: "innerProgress oneMinuteWeek = Num 7"
    using innerProgress_spec [OF m'] r(2) by simp
  show ?thesis using m a m' b by (simp only: simp_thms)
qed

section \<open>Setting one tick\<close>

text \<open>
  Claim C10. For every week \<open>w\<close>, habit id \<open>h\<close> with an array \<open>arr\<close> in the
  ticks of \<open>w\<close>, day index \<open>d\<close> and boolean \<open>v\<close>, \<^verbatim>\<open>setTick(h, d, v)\<close> succeeds
  and changes nothing but entry \<open>d\<close> of that array: the other fields of the
  week, the keys of \<^verbatim>\<open>ticks\<close>, the arrays of the other habits, the length of
  the array and its other entries are the same, and entry \<open>d\<close> (when the array
  has one) is \<open>v\<close>.
\<close>

theorem setTick_frame:
  assumes "map_of (ticks w) h = Some arr"
  shows "\<exists>w' arr'. setTick h d v w = Inr w'
          \<and> meta w' = meta w \<and> metrics w' = metrics w \<and> habits w' = habits w
          \<and> sections w' = sections w \<and> oneTime w' = oneTime w \<and> wins w' = wins w
          \<and> reflection w' = reflection w
          \<and> map fst (ticks w') = map fst (ticks w)
          \<and> (\<forall>h'. h' \<noteq> h \<longrightarrow> map_of (ticks w') h' = map_of (ticks w) h')
          \<and> map_of (ticks w') h = Some arr'
          \<and> length arr' = length arr
          \<and> (\<forall>i < length arr. arr' ! i = (if i = d then v else arr ! i))"
proof -
  let ?w' = "w\<lparr>ticks := AList.update h (mapTick d v arr) (ticks w)\<rparr>"
  have s: "setTick h d v w = Inr ?w'"
    using assms by (simp add: setTick_def)
  have k: "map fst (ticks ?w') = map fst (ticks w)"
    using map_of_Some_key [OF assms] by (simp add: AList.update_keys)
  have o: "\<forall>h'. h' \<noteq> h \<longrightarrow> map_of (ticks ?w') h' = map_of (ticks w) h'"
    by (simp add: AList.update_conv')
  have m: "map_of (ticks ?w') h = Some (mapTick d v arr)"
    by (simp add: AList.update_conv')
  have n: "\<forall>i < length arr. mapTick d v arr ! i = (if i = d then v else arr ! i)"
    by (simp add: mapTick_nth)
  show ?thesis
    apply (rule exI [of _ ?w'])
    apply (rule exI [of _ "mapTick d v arr"])
    using s k o m n length_mapTick [of d v arr] apply simp
    done
qed

text \<open>Ticking Wednesday of the habit move in the sample week.\<close>

theorem setTick_frame_witness:
  "map_of (ticks sampleWeek) ''move'' = Some (replicate 7 False)
   \<and> (\<exists>w' arr'. setTick ''move'' 2 True sampleWeek = Inr w'
         \<and> habits w' = habits sampleWeek
         \<and> map_of (ticks w') ''sleep'' = map_of (ticks sampleWeek) ''sleep''
         \<and> map_of (ticks w') ''move'' = Some arr'
         \<and> length arr' = 7 \<and> arr' ! 2 = True \<and> arr' ! 3 = False)"
proof -
  have a: "map_of (ticks sampleWeek) ''move'' = Some (replicate 7 False)" by code_simp
  from setTick_frame [OF a, of 2 True] obtain w' arr' where
    s: "setTick ''move'' 2 True sampleWeek = Inr w'"
    and h: "habits w' = habits sampleWeek"
    and o: "\<forall>h'. h' \<noteq> ''move'' \<longrightarrow> map_of (ticks w') h' = map_of (ticks sampleWeek) h'"
    and m: "map_of (ticks w') ''move'' = Some arr'"
    and l: "length arr' = length (replicate 7 False)"
    and n: "\<forall>i < length (replicate 7 False).
              arr' ! i = (if i = 2 then True else replicate 7 False ! i)"
    by blast
  have o': "map_of (ticks w') ''sleep'' = map_of (ticks sampleWeek) ''sleep''"
    using o by simp
  have l': "length arr' = 7" using l by simp
  have n2: "arr' ! 2 = True" using n by simp
  have n3: "arr' ! 3 = False" using n by simp
  show ?thesis
    using a s h o' m l' n2 n3 by blast
qed

end
